theory Spec2Isabelle
  imports Complex_Main
begin

section \<open>Dates and times of day\<close>

text \<open>
  A JavaScript \<^verbatim>\<open>Date\<close> is modelled by its time value: the number of milliseconds since
  the epoch, in UTC. Only valid dates are modelled.

  The time zone of the host is a parameter: the two functions through which the language
  reaches it, \<^verbatim>\<open>LocalTime(t)\<close>, the local time value of an instant, and \<^verbatim>\<open>UTC(t)\<close>, the
  instant of a local time value. A zone with daylight saving has days of 23 and of 25 hours.
\<close>

type_synonym date = int

record zone =
  LocalTime :: "date \<Rightarrow> int"
  UTC :: "int \<Rightarrow> date"

text \<open>A zone that is always \<open>off\<close> milliseconds ahead of UTC.\<close>

definition fixedZone :: "int \<Rightarrow> zone" where
  "fixedZone off = \<lparr>LocalTime = (\<lambda>t. t + off), UTC = (\<lambda>l. l - off)\<rparr>"

definition msPerDay :: int where
  "msPerDay = 86400000"

text \<open>\<^verbatim>\<open>Day(LocalTime(t))\<close>: the number of the local calendar day that holds the instant \<open>t\<close>.\<close>

definition localDay :: "zone \<Rightarrow> date \<Rightarrow> int" where
  "localDay z t = LocalTime z t div msPerDay"

text \<open>
  \<^verbatim>\<open>d.setHours(0, 0, 0, 0)\<close> and \<^verbatim>\<open>d.setHours(23, 59, 59, 999)\<close>: the time of day is
  replaced in the local time value, which is then taken back to an instant.
\<close>

definition startOfDay :: "zone \<Rightarrow> date \<Rightarrow> date" where
  "startOfDay z t = UTC z (localDay z t * msPerDay)"

definition endOfDay :: "zone \<Rightarrow> date \<Rightarrow> date" where
  "endOfDay z t =
     UTC z (localDay z t * msPerDay + (23 * 3600000 + 59 * 60000 + 59 * 1000 + 999))"

text \<open>\<^verbatim>\<open>getDay()\<close>, \<^verbatim>\<open>getHours()\<close>, \<^verbatim>\<open>getMinutes()\<close>; 1 January 1970 was a Thursday.\<close>

definition getDay :: "zone \<Rightarrow> date \<Rightarrow> nat" where
  "getDay z t = nat ((localDay z t + 4) mod 7)"

definition getHours :: "zone \<Rightarrow> date \<Rightarrow> nat" where
  "getHours z t = nat ((LocalTime z t mod msPerDay) div 3600000)"

definition getMinutes :: "zone \<Rightarrow> date \<Rightarrow> nat" where
  "getMinutes z t = nat ((LocalTime z t mod 3600000) div 60000)"

definition dayNames :: "string list" where
  "dayNames = [''Sunday'', ''Monday'', ''Tuesday'', ''Wednesday'', ''Thursday'',
     ''Friday'', ''Saturday'']"

subsection \<open>Strings and numbers\<close>

text \<open>\<^verbatim>\<open>str.split(c)\<close>: the pieces of \<open>str\<close> between the occurrences of \<open>c\<close>.\<close>

fun splitOn :: "char \<Rightarrow> string \<Rightarrow> string list" where
  "splitOn c [] = [[]]"
| "splitOn c (x # xs) =
     (if x = c then [] # splitOn c xs
      else (case splitOn c xs of [] \<Rightarrow> [[x]] | p # ps \<Rightarrow> (x # p) # ps))"

definition isDigit :: "char \<Rightarrow> bool" where
  "isDigit c = (48 \<le> (of_char c :: nat) \<and> (of_char c :: nat) \<le> 57)"

text \<open>
  Strings are sequences of code units below 256. White space and line terminators in that
  range: tab, line feed, vertical tab, form feed, carriage return, space and no-break space.
  \<^verbatim>\<open>s.trim()\<close> removes them at both ends.
\<close>

definition isWhiteSpace :: "char \<Rightarrow> bool" where
  "isWhiteSpace c = ((of_char c :: nat) \<in> set [9, 10, 11, 12, 13, 32, 160])"

definition trim :: "string \<Rightarrow> string" where
  "trim s = rev (dropWhile isWhiteSpace (rev (dropWhile isWhiteSpace s)))"

subsection \<open>Numbers\<close>

text \<open>
  A JavaScript number is NaN, an infinity or a finite value. Finite values are exact
  rationals here: the rounding and the overflow of doubles are outside the model.
\<close>

datatype jsnum = NaN | NegInf | Num rat | PosInf

definition jsNeg :: "jsnum \<Rightarrow> jsnum" where
  "jsNeg x = (case x of NaN \<Rightarrow> NaN | NegInf \<Rightarrow> PosInf | Num a \<Rightarrow> Num (- a) | PosInf \<Rightarrow> NegInf)"

definition jsSign :: "jsnum \<Rightarrow> int" where
  "jsSign x =
     (case x of
        NaN \<Rightarrow> 0
      | NegInf \<Rightarrow> - 1
      | Num a \<Rightarrow> (if a < 0 then - 1 else if a = 0 then 0 else 1)
      | PosInf \<Rightarrow> 1)"

text \<open>\<^verbatim>\<open>x * y\<close> and \<^verbatim>\<open>x + y\<close> on numbers.\<close>

fun jsMul :: "jsnum \<Rightarrow> jsnum \<Rightarrow> jsnum" where
  "jsMul (Num a) (Num b) = Num (a * b)"
| "jsMul NaN y = NaN"
| "jsMul x NaN = NaN"
| "jsMul x y =
     (if jsSign x * jsSign y = 0 then NaN
      else if 0 < jsSign x * jsSign y then PosInf else NegInf)"

fun jsAdd :: "jsnum \<Rightarrow> jsnum \<Rightarrow> jsnum" where
  "jsAdd (Num a) (Num b) = Num (a + b)"
| "jsAdd NaN y = NaN"
| "jsAdd x NaN = NaN"
| "jsAdd PosInf NegInf = NaN"
| "jsAdd NegInf PosInf = NaN"
| "jsAdd PosInf y = PosInf"
| "jsAdd x PosInf = PosInf"
| "jsAdd x y = NegInf"

text \<open>\<^verbatim>\<open>x <= y\<close> and \<^verbatim>\<open>x >= y\<close> on numbers: false as soon as one side is NaN.\<close>

fun jsLe :: "jsnum \<Rightarrow> jsnum \<Rightarrow> bool" where
  "jsLe NaN y = False"
| "jsLe x NaN = False"
| "jsLe NegInf y = True"
| "jsLe x PosInf = True"
| "jsLe (Num a) (Num b) = (a \<le> b)"
| "jsLe x y = False"

definition jsGe :: "jsnum \<Rightarrow> jsnum \<Rightarrow> bool" where
  "jsGe x y = jsLe y x"

text \<open>
  \<^verbatim>\<open>Number(s)\<close> on a string, after the grammar of the language for numeric strings:
  optional white space around an optional literal, which is a signed decimal literal
  (\<^verbatim>\<open>Infinity\<close>, or digits with an optional fraction and an optional exponent) or an
  unsigned binary, octal or hexadecimal integer. The empty literal is 0; anything else
  is NaN.
\<close>

definition decimalValue :: "string \<Rightarrow> nat" where
  "decimalValue ds = foldl (\<lambda>n c. 10 * n + (of_char c - 48)) 0 ds"

definition digitOf :: "char \<Rightarrow> nat" where
  "digitOf c =
     (let k = (of_char c :: nat)
      in if 48 \<le> k \<and> k \<le> 57 then k - 48
         else if 97 \<le> k \<and> k \<le> 102 then k - 87
         else if 65 \<le> k \<and> k \<le> 70 then k - 55
         else 16)"

definition radixLiteral :: "nat \<Rightarrow> string \<Rightarrow> jsnum" where
  "radixLiteral r ds =
     (if ds \<noteq> [] \<and> list_all (\<lambda>c. digitOf c < r) ds
      then Num (of_nat (foldl (\<lambda>n c. r * n + digitOf c) 0 ds))
      else NaN)"

definition nonDecimalLiteral :: "string \<Rightarrow> jsnum option" where
  "nonDecimalLiteral s =
     (case s of
        [] \<Rightarrow> None
      | [c] \<Rightarrow> None
      | c # x # ds \<Rightarrow>
          if c \<noteq> CHR ''0'' then None
          else if x = CHR ''x'' \<or> x = CHR ''X'' then Some (radixLiteral 16 ds)
          else if x = CHR ''o'' \<or> x = CHR ''O'' then Some (radixLiteral 8 ds)
          else if x = CHR ''b'' \<or> x = CHR ''B'' then Some (radixLiteral 2 ds)
          else None)"

definition pow10 :: "int \<Rightarrow> rat" where
  "pow10 e = (if 0 \<le> e then 10 ^ nat e else 1 / 10 ^ nat (- e))"

definition signedDigits :: "int \<Rightarrow> string \<Rightarrow> int option" where
  "signedDigits k ds =
     (if ds \<noteq> [] \<and> list_all isDigit ds then Some (k * int (decimalValue ds)) else None)"

definition exponentPart :: "string \<Rightarrow> int option" where
  "exponentPart s =
     (case s of
        [] \<Rightarrow> Some 0
      | c # r \<Rightarrow>
          if c = CHR ''e'' \<or> c = CHR ''E''
          then (case r of
                  [] \<Rightarrow> None
                | sg # ds \<Rightarrow>
                    if sg = CHR ''+'' then signedDigits 1 ds
                    else if sg = CHR ''-'' then signedDigits (- 1) ds
                    else signedDigits 1 r)
          else None)"

definition unsignedDecimal :: "string \<Rightarrow> jsnum" where
  "unsignedDecimal s =
     (if s = ''Infinity'' then PosInf
      else
        (let ip = takeWhile isDigit s; r1 = dropWhile isDigit s
         in case r1 of
              [] \<Rightarrow> (if ip = [] then NaN else Num (of_nat (decimalValue ip)))
            | c # r2 \<Rightarrow>
                if c = CHR ''.''
                then
                  (let fp = takeWhile isDigit r2; r3 = dropWhile isDigit r2
                   in if ip = [] \<and> fp = [] then NaN
                      else (case exponentPart r3 of
                              None \<Rightarrow> NaN
                            | Some e \<Rightarrow>
                                Num ((of_nat (decimalValue ip) +
                                      of_nat (decimalValue fp) / 10 ^ length fp) * pow10 e)))
                else if ip = [] then NaN
                else (case exponentPart r1 of
                        None \<Rightarrow> NaN
                      | Some e \<Rightarrow> Num (of_nat (decimalValue ip) * pow10 e))))"

definition strDecimalLiteral :: "string \<Rightarrow> jsnum" where
  "strDecimalLiteral s =
     (case s of
        [] \<Rightarrow> NaN
      | c # r \<Rightarrow>
          if c = CHR ''+'' then unsignedDecimal r
          else if c = CHR ''-'' then jsNeg (unsignedDecimal r)
          else unsignedDecimal s)"

definition Number :: "string \<Rightarrow> jsnum" where
  "Number s =
     (let t = trim s
      in if t = [] then Num 0
         else (case nonDecimalLiteral t of Some v \<Rightarrow> v | None \<Rightarrow> strDecimalLiteral t))"

text \<open>
  \<^verbatim>\<open>a < b\<close> on strings compares code units lexicographically; \<^verbatim>\<open>a >= b\<close> is its negation
  and \<^verbatim>\<open>a <= b\<close> the negation of \<^verbatim>\<open>b < a\<close>.
\<close>

fun strLess :: "string \<Rightarrow> string \<Rightarrow> bool" where
  "strLess [] [] = False"
| "strLess [] (y # ys) = True"
| "strLess (x # xs) [] = False"
| "strLess (x # xs) (y # ys) =
     (if (of_char x :: nat) < of_char y then True
      else if (of_char y :: nat) < of_char x then False
      else strLess xs ys)"

definition strGe :: "string \<Rightarrow> string \<Rightarrow> bool" where
  "strGe a b = (\<not> strLess a b)"

definition strLe :: "string \<Rightarrow> string \<Rightarrow> bool" where
  "strLe a b = (\<not> strLess b a)"

text \<open>\<^verbatim>\<open>String(n)\<close> for a natural number and \<^verbatim>\<open>s.padStart(2, '0')\<close>.\<close>

definition digitChar :: "nat \<Rightarrow> char" where
  "digitChar n = char_of (48 + n)"

fun toString :: "nat \<Rightarrow> string" where
  "toString n = (if n < 10 then [digitChar n] else toString (n div 10) @ [digitChar (n mod 10)])"

definition padStart2 :: "string \<Rightarrow> string" where
  "padStart2 s = replicate (2 - length s) CHR ''0'' @ s"

section \<open>Data model\<close>

datatype status = Pending | InProgress | Completed | Cancelled

text \<open>
  The \<^verbatim>\<open>enum\<close> validator of the status path: the four strings the schema accepts.
\<close>

definition parseStatus :: "string \<Rightarrow> status option" where
  "parseStatus s =
     (if s = ''pending'' then Some Pending
      else if s = ''in-progress'' then Some InProgress
      else if s = ''completed'' then Some Completed
      else if s = ''cancelled'' then Some Cancelled
      else None)"

text \<open>
  An appointment document (\<^verbatim>\<open>models/Appointment.js\<close>); \<open>appt_id\<close> is its \<^verbatim>\<open>_id\<close>.
\<close>

record appointment =
  appt_id :: nat
  userId :: nat
  organizationId :: nat
  expertName :: string
  serviceName :: string
  appointmentDate :: date
  appointmentTime :: string
  status :: status
  queuePosition :: int
  estimatedWaitTime :: int
  appt_notes :: "string option"
  createdAt :: date
  updatedAt :: date

record workingHour =
  day :: string
  startTime :: string
  endTime :: string
  isOpen :: bool

record expert =
  name :: string
  specialization :: string
  available :: bool

text \<open>
  An organization document (\<^verbatim>\<open>models/Organization.js\<close>) with the fields that the
  appointment operations read; \<open>org_id\<close> is its \<^verbatim>\<open>_id\<close> and \<open>org_userId\<close> its owning user.
\<close>

record organization =
  org_id :: nat
  org_userId :: nat
  organizationName :: string
  workingHours :: "workingHour list"
  experts :: "expert list"
  appointmentDuration :: int

section \<open>Queue and slot policy: the pure functions\<close>

definition calculateEstimatedWaitTime :: "int \<Rightarrow> int option \<Rightarrow> int" where
  "calculateEstimatedWaitTime queuePos duration =
     (let d = (case duration of None \<Rightarrow> 30 | Some v \<Rightarrow> v)
      in max 0 ((queuePos - 1) * d))"

text \<open>
  The local function \<^verbatim>\<open>timeToMinutes\<close>: the first two pieces between colons, as numbers.
  A piece that is missing is \<^verbatim>\<open>undefined\<close> and makes the sum NaN.
\<close>

definition timeToMinutes :: "string \<Rightarrow> jsnum" where
  "timeToMinutes timeStr =
     (case map Number (splitOn CHR '':'' timeStr) of
        [] \<Rightarrow> NaN
      | [hours] \<Rightarrow> NaN
      | hours # minutes # rest \<Rightarrow> jsAdd (jsMul hours (Num 60)) minutes)"

text \<open>
  \<^verbatim>\<open>isWithinWorkingHours\<close>. Its \<^verbatim>\<open>try\<close> block cannot throw on a list of entries, a date and
  a string, so the \<^verbatim>\<open>catch\<close> branch has no counterpart here.
\<close>

definition isWithinWorkingHours :: "zone \<Rightarrow> workingHour list \<Rightarrow> date \<Rightarrow> string \<Rightarrow> bool" where
  "isWithinWorkingHours z whs apptDate apptTime =
     (let dayName = dayNames ! getDay z apptDate
      in case find (\<lambda>wh. day wh = dayName \<and> isOpen wh) whs of
           None \<Rightarrow> False
         | Some schedule \<Rightarrow>
             (let appointmentMinutes = timeToMinutes apptTime;
                  startMinutes = timeToMinutes (startTime schedule);
                  endMinutes = timeToMinutes (endTime schedule)
              in jsGe appointmentMinutes startMinutes \<and> jsLe appointmentMinutes endMinutes))"

text \<open>
  The virtual \<^verbatim>\<open>isCurrentlyOpen\<close> of an organization, with the current instant \<open>now\<close> as a
  parameter. It compares the zero-padded \<^verbatim>\<open>HH:MM\<close> of \<open>now\<close> with the stored strings, as
  strings.
\<close>

definition isCurrentlyOpen :: "zone \<Rightarrow> date \<Rightarrow> organization \<Rightarrow> bool" where
  "isCurrentlyOpen z now org =
     (let currentDay = dayNames ! getDay z now;
          currentTime = padStart2 (toString (getHours z now)) @ '':'' @
                        padStart2 (toString (getMinutes z now))
      in case find (\<lambda>wh. day wh = currentDay \<and> isOpen wh) (workingHours org) of
           None \<Rightarrow> False
         | Some todaySchedule \<Rightarrow>
             strGe currentTime (startTime todaySchedule) \<and>
             strLe currentTime (endTime todaySchedule))"

section \<open>The document store\<close>

text \<open>
  The store holds the two collections in insertion order. A query is a predicate on
  documents: a field of a query document matches a stored field that is equal to it, once
  the setters of the schema have been applied to the value in the query.
  Every operation on the store may fail (the driver throws): \<open>faults\<close> is a schedule
  consulted once per store operation, in order, and \<open>True\<close> makes that operation fail; when
  the schedule is used up, operations succeed.
\<close>

record db =
  appointments :: "appointment list"
  organizations :: "organization list"
  faults :: "bool list"

datatype error = StoreError | ValidationError | TypeError

definition storeOp :: "db \<Rightarrow> bool \<times> db" where
  "storeOp s = (case faults s of [] \<Rightarrow> (False, s) | f # fs \<Rightarrow> (f, s\<lparr>faults := fs\<rparr>))"

definition nextFails :: "db \<Rightarrow> bool" where
  "nextFails s = fst (storeOp s)"

text \<open>\<^verbatim>\<open>Appointment.countDocuments(q)\<close>, \<^verbatim>\<open>Appointment.findOne(q)\<close>.\<close>

definition countDocuments :: "(appointment \<Rightarrow> bool) \<Rightarrow> db \<Rightarrow> (error + nat) \<times> db" where
  "countDocuments q s =
     (case storeOp s of
        (True, s') \<Rightarrow> (Inl StoreError, s')
      | (False, s') \<Rightarrow> (Inr (length (filter q (appointments s))), s'))"

definition findOne :: "(appointment \<Rightarrow> bool) \<Rightarrow> db \<Rightarrow> (error + appointment option) \<times> db" where
  "findOne q s =
     (case storeOp s of
        (True, s') \<Rightarrow> (Inl StoreError, s')
      | (False, s') \<Rightarrow> (Inr (find q (appointments s)), s'))"

text \<open>
  \<^verbatim>\<open>Appointment.find(q).sort({ createdAt: 1 })\<close>. Documents with equal creation times
  keep their store order.
\<close>

definition findSortedByCreatedAt ::
  "(appointment \<Rightarrow> bool) \<Rightarrow> db \<Rightarrow> (error + appointment list) \<times> db" where
  "findSortedByCreatedAt q s =
     (case storeOp s of
        (True, s') \<Rightarrow> (Inl StoreError, s')
      | (False, s') \<Rightarrow> (Inr (sort_key createdAt (filter q (appointments s))), s'))"

definition findAppointmentById :: "nat \<Rightarrow> db \<Rightarrow> (error + appointment option) \<times> db" where
  "findAppointmentById i s = findOne (\<lambda>a. appt_id a = i) s"

definition findOrganizationById :: "nat \<Rightarrow> db \<Rightarrow> (error + organization option) \<times> db" where
  "findOrganizationById i s =
     (case storeOp s of
        (True, s') \<Rightarrow> (Inl StoreError, s')
      | (False, s') \<Rightarrow> (Inr (find (\<lambda>org. org_id org = i) (organizations s)), s'))"

text \<open>An update of the first document that matches, as the store's \<^verbatim>\<open>updateOne\<close> does.\<close>

fun updateOne :: "('a \<Rightarrow> bool) \<Rightarrow> ('a \<Rightarrow> 'a) \<Rightarrow> 'a list \<Rightarrow> 'a list" where
  "updateOne p f [] = []"
| "updateOne p f (x # xs) = (if p x then f x # xs else x # updateOne p f xs)"

text \<open>
  \<^verbatim>\<open>doc.save()\<close> on a loaded appointment whose fields were assigned: the \<^verbatim>\<open>pre('save')\<close>
  hook sets \<^verbatim>\<open>updatedAt\<close> to the current time, and the assigned fields (\<open>assign\<close>) and
  \<^verbatim>\<open>updatedAt\<close> are written to the stored document with that \<^verbatim>\<open>_id\<close>. Every caller has
  just loaded the document, so it is in the store.
\<close>

definition save :: "date \<Rightarrow> nat \<Rightarrow> (appointment \<Rightarrow> appointment) \<Rightarrow> db \<Rightarrow> (error + unit) \<times> db" where
  "save now i assign s =
     (case storeOp s of
        (True, s') \<Rightarrow> (Inl StoreError, s')
      | (False, s') \<Rightarrow>
          (Inr (), s'\<lparr>appointments :=
             updateOne (\<lambda>a. appt_id a = i) (\<lambda>a. (assign a)\<lparr>updatedAt := now\<rparr>) (appointments s')\<rparr>))"

text \<open>\<^verbatim>\<open>doc.populate(...)\<close> reads the referenced document: a store operation.\<close>

definition populate :: "db \<Rightarrow> (error + unit) \<times> db" where
  "populate s =
     (case storeOp s of (True, s') \<Rightarrow> (Inl StoreError, s') | (False, s') \<Rightarrow> (Inr (), s'))"

text \<open>
  The \<^verbatim>\<open>match\<close> validator of \<^verbatim>\<open>appointmentTime\<close>:
  \<^verbatim>\<open>/^([0-1]?[0-9]|2[0-3]):[0-5][0-9]$/\<close>.
\<close>

definition isDigitUpTo :: "nat \<Rightarrow> char \<Rightarrow> bool" where
  "isDigitUpTo k c = (48 \<le> (of_char c :: nat) \<and> (of_char c :: nat) \<le> 48 + k)"

fun timeFormatOk :: "string \<Rightarrow> bool" where
  "timeFormatOk [h, c, m1, m2] =
     (isDigit h \<and> c = CHR '':'' \<and> isDigitUpTo 5 m1 \<and> isDigit m2)"
| "timeFormatOk [h1, h2, c, m1, m2] =
     ((isDigitUpTo 1 h1 \<and> isDigit h2 \<or> h1 = CHR ''2'' \<and> isDigitUpTo 3 h2) \<and>
      c = CHR '':'' \<and> isDigitUpTo 5 m1 \<and> isDigit m2)"
| "timeFormatOk s = False"

text \<open>
  \<^verbatim>\<open>Appointment.create(doc)\<close>: the setters of the schema trim the expert name, the
  service name and the notes; validation requires an expert name and a service name that
  are not empty and a time in the format; then comes the insert. The new \<^verbatim>\<open>_id\<close> is one
  that no stored appointment has.
\<close>

definition freshId :: "appointment list \<Rightarrow> nat" where
  "freshId xs = Suc (foldr max (map appt_id xs) 0)"

definition applySetters :: "appointment \<Rightarrow> appointment" where
  "applySetters doc =
     doc\<lparr>expertName := trim (expertName doc), serviceName := trim (serviceName doc),
         appt_notes := map_option trim (appt_notes doc)\<rparr>"

definition createAppointment :: "appointment \<Rightarrow> db \<Rightarrow> (error + appointment) \<times> db" where
  "createAppointment doc s =
     (let cast = applySetters doc
      in if expertName cast = [] \<or> serviceName cast = [] \<or>
            \<not> timeFormatOk (appointmentTime cast)
         then (Inl ValidationError, s)
         else (case storeOp s of
                 (True, s') \<Rightarrow> (Inl StoreError, s')
               | (False, s') \<Rightarrow>
                   (let a = cast\<lparr>appt_id := freshId (appointments s')\<rparr>
                    in (Inr a, s'\<lparr>appointments := appointments s' @ [a]\<rparr>))))"

section \<open>Queue and slot policy: the functions on the store\<close>

text \<open>
  The query shared by the policy functions: the organization, the day of \<open>d\<close> from its
  first to its last millisecond, and an active status.
\<close>

definition dayQuery :: "zone \<Rightarrow> nat \<Rightarrow> date \<Rightarrow> appointment \<Rightarrow> bool" where
  "dayQuery z oid d a =
     (organizationId a = oid \<and>
      startOfDay z d \<le> appointmentDate a \<and> appointmentDate a \<le> endOfDay z d \<and>
      (status a = Pending \<or> status a = InProgress))"

definition calculateQueuePosition :: "zone \<Rightarrow> nat \<Rightarrow> date \<Rightarrow> string \<Rightarrow> db \<Rightarrow> int \<times> db" where
  "calculateQueuePosition z oid d t s =
     (case countDocuments (dayQuery z oid d) s of
        (Inr n, s') \<Rightarrow> (int n + 1, s')
      | (Inl e, s') \<Rightarrow> (1, s'))"

text \<open>
  \<^verbatim>\<open>isSlotAvailable\<close>. The values of a filter pass through the setters of the schema before
  the store sees them: \<^verbatim>\<open>expertName\<close> is declared with \<^verbatim>\<open>trim\<close>, so the stored name is
  compared with the trimmed argument; \<^verbatim>\<open>appointmentTime\<close> has no setter.
\<close>

definition isSlotAvailable :: "zone \<Rightarrow> nat \<Rightarrow> date \<Rightarrow> string \<Rightarrow> string \<Rightarrow> db \<Rightarrow> bool \<times> db" where
  "isSlotAvailable z oid d t en s =
     (case findOne
             (\<lambda>a. dayQuery z oid d a \<and> appointmentTime a = t \<and> expertName a = trim en) s of
        (Inr existingAppointment, s') \<Rightarrow> (existingAppointment = None, s')
      | (Inl e, s') \<Rightarrow> (False, s'))"

text \<open>
  The loop of \<^verbatim>\<open>updateQueuePositions\<close>, from index \<open>i\<close> on: a failing \<^verbatim>\<open>save\<close> leaves the
  loop, and the positions written so far stay.
\<close>

fun renumberFrom :: "date \<Rightarrow> int \<Rightarrow> appointment list \<Rightarrow> db \<Rightarrow> (error + unit) \<times> db" where
  "renumberFrom now i [] s = (Inr (), s)"
| "renumberFrom now i (a # as) s =
     (case save now (appt_id a) (\<lambda>x. x\<lparr>queuePosition := i + 1\<rparr>) s of
        (Inl e, s') \<Rightarrow> (Inl e, s')
      | (Inr u, s') \<Rightarrow> renumberFrom now (i + 1) as s')"

text \<open>
  \<^verbatim>\<open>updateQueuePositions\<close>. The function returns nothing; the Boolean of the model tells
  whether it ran to its end (\<open>True\<close>) or caught and logged an error (\<open>False\<close>).
\<close>

definition updateQueuePositions :: "zone \<Rightarrow> date \<Rightarrow> nat \<Rightarrow> date \<Rightarrow> db \<Rightarrow> bool \<times> db" where
  "updateQueuePositions z now oid d s =
     (case findSortedByCreatedAt (dayQuery z oid d) s of
        (Inl e, s1) \<Rightarrow> (False, s1)
      | (Inr found, s1) \<Rightarrow>
          (case renumberFrom now 0 found s1 of
             (Inl e, s2) \<Rightarrow> (False, s2)
           | (Inr u, s2) \<Rightarrow> (True, s2)))"

section \<open>The appointment controller\<close>

text \<open>
  A response is the HTTP status with the \<^verbatim>\<open>success\<close> flag and the \<^verbatim>\<open>message\<close> of the
  JSON body. The outer \<^verbatim>\<open>catch\<close> of every handler answers 500.
\<close>

record response =
  statusCode :: nat
  success :: bool
  message :: string

definition respond :: "nat \<Rightarrow> bool \<Rightarrow> string \<Rightarrow> response" where
  "respond c ok m = \<lparr>statusCode = c, success = ok, message = m\<rparr>"

definition serverError :: response where
  "serverError = respond 500 False ''Server error''"

text \<open>
  The body of a booking request. A field that is absent is \<open>None\<close>; the date is given by the
  time value that \<^verbatim>\<open>new Date(appointmentDate)\<close> yields.
\<close>

record bookingRequest =
  req_organizationId :: "nat option"
  req_expertName :: "string option"
  req_serviceName :: "string option"
  req_appointmentDate :: "date option"
  req_appointmentTime :: "string option"
  req_notes :: "string option"

text \<open>\<^verbatim>\<open>!v\<close> on a string that may be absent.\<close>

definition falsy :: "string option \<Rightarrow> bool" where
  "falsy v = (case v of None \<Rightarrow> True | Some str \<Rightarrow> str = [])"

text \<open>
  \<^verbatim>\<open>bookAppointment\<close> from the lookup of the organization on, all fields being present.
  The handler passes more arguments to \<^verbatim>\<open>isWithinWorkingHours\<close> and \<^verbatim>\<open>isSlotAvailable\<close> than
  these functions take (days off, the open flag, reserved slots); they are not read.
\<close>

definition bookWithFields ::
  "zone \<Rightarrow> date \<Rightarrow> nat \<Rightarrow> nat \<Rightarrow> string \<Rightarrow> string \<Rightarrow> date \<Rightarrow> string \<Rightarrow> string option \<Rightarrow> db
    \<Rightarrow> response \<times> db" where
  "bookWithFields z now uid oid en sn d t nt s =
     (case findOrganizationById oid s of
        (Inl e, s1) \<Rightarrow> (serverError, s1)
      | (Inr None, s1) \<Rightarrow> (respond 404 False ''Organization not found'', s1)
      | (Inr (Some org), s1) \<Rightarrow>
          if d < startOfDay z now
          then (respond 400 False ''Cannot book appointment in the past'', s1)
          else if \<not> isWithinWorkingHours z (workingHours org) d t
          then (respond 400 False
            ''Appointment time is outside working hours, on a day off, or organization is temporarily closed'',
            s1)
          else (case find (\<lambda>e. name e = en) (experts org) of
             None \<Rightarrow> (respond 404 False ''Expert not found'', s1)
           | Some ex \<Rightarrow>
               if \<not> available ex then (respond 400 False ''Expert is not available'', s1)
               else (case isSlotAvailable z oid d t en s1 of
                  (False, s2) \<Rightarrow> (respond 400 False ''Slot is already taken'', s2)
                | (True, s2) \<Rightarrow>
                   (case calculateQueuePosition z oid d t s2 of
                      (qp, s3) \<Rightarrow>
                        (case createAppointment
                            \<lparr>appt_id = 0, userId = uid, organizationId = oid, expertName = en,
                             serviceName = sn, appointmentDate = d, appointmentTime = t,
                             status = Pending, queuePosition = qp,
                             estimatedWaitTime =
                               calculateEstimatedWaitTime qp (Some (appointmentDuration org)),
                             appt_notes = nt, createdAt = now, updatedAt = now\<rparr> s3 of
                           (Inl e, s4) \<Rightarrow> (serverError, s4)
                         | (Inr a, s4) \<Rightarrow>
                             (case populate s4 of
                                (Inl e, s5) \<Rightarrow> (serverError, s5)
                              | (Inr u, s5) \<Rightarrow>
                                  (case populate s5 of
                                     (Inl e, s6) \<Rightarrow> (serverError, s6)
                                   | (Inr v, s6) \<Rightarrow>
                                       (respond 201 True ''Appointment booked successfully'',
                                        s6))))))))"

definition bookAppointment :: "zone \<Rightarrow> date \<Rightarrow> nat \<Rightarrow> bookingRequest \<Rightarrow> db \<Rightarrow> response \<times> db" where
  "bookAppointment z now uid req s =
     (if req_organizationId req = None \<or> falsy (req_expertName req) \<or>
         falsy (req_serviceName req) \<or> req_appointmentDate req = None \<or>
         falsy (req_appointmentTime req)
      then (respond 400 False ''Please provide all required fields'', s)
      else (case req_organizationId req of
         None \<Rightarrow> (respond 400 False ''Please provide all required fields'', s)
       | Some oid \<Rightarrow>
          (case req_appointmentDate req of
             None \<Rightarrow> (respond 400 False ''Please provide all required fields'', s)
           | Some d \<Rightarrow>
               bookWithFields z now uid oid
                 (case req_expertName req of None \<Rightarrow> [] | Some en \<Rightarrow> en)
                 (case req_serviceName req of None \<Rightarrow> [] | Some sn \<Rightarrow> sn)
                 d
                 (case req_appointmentTime req of None \<Rightarrow> [] | Some t \<Rightarrow> t)
                 (req_notes req) s)))"

text \<open>
  \<^verbatim>\<open>updateAppointmentStatus\<close>, called by user \<open>uid\<close> for appointment \<open>aid\<close> with the status
  string of the body. Reading \<^verbatim>\<open>organization.userId\<close> of a missing organization throws;
  a string outside the schema's enum makes \<^verbatim>\<open>save\<close> throw before it writes.
\<close>

definition updateAppointmentStatus ::
  "zone \<Rightarrow> date \<Rightarrow> nat \<Rightarrow> nat \<Rightarrow> string option \<Rightarrow> db \<Rightarrow> response \<times> db" where
  "updateAppointmentStatus z now uid aid statusArg s =
     (case statusArg of
        None \<Rightarrow> (respond 400 False ''Please provide status'', s)
      | Some str \<Rightarrow>
        if str = [] then (respond 400 False ''Please provide status'', s)
        else (case findAppointmentById aid s of
           (Inl e, s1) \<Rightarrow> (serverError, s1)
         | (Inr None, s1) \<Rightarrow> (respond 404 False ''Appointment not found'', s1)
         | (Inr (Some a), s1) \<Rightarrow>
            (case findOrganizationById (organizationId a) s1 of
               (Inl e, s2) \<Rightarrow> (serverError, s2)
             | (Inr None, s2) \<Rightarrow> (serverError, s2)
             | (Inr (Some org), s2) \<Rightarrow>
                if org_userId org \<noteq> uid
                then (respond 403 False ''Not authorized to update this appointment'', s2)
                else (case parseStatus str of
                   None \<Rightarrow> (serverError, s2)
                 | Some st \<Rightarrow>
                    (case save now aid (\<lambda>x. x\<lparr>status := st\<rparr>) s2 of
                       (Inl e, s3) \<Rightarrow> (serverError, s3)
                     | (Inr u, s3) \<Rightarrow>
                        (let s4 = (if st = Completed \<or> st = Cancelled
                                   then snd (updateQueuePositions z now (organizationId a)
                                               (appointmentDate a) s3)
                                   else s3)
                         in case populate s4 of
                              (Inl e, s5) \<Rightarrow> (serverError, s5)
                            | (Inr v, s5) \<Rightarrow>
                                (case populate s5 of
                                   (Inl e, s6) \<Rightarrow> (serverError, s6)
                                 | (Inr w, s6) \<Rightarrow>
                                     (respond 200 True
                                        ''Appointment status updated successfully'', s6))))))))"

text \<open>\<^verbatim>\<open>cancelAppointment\<close>, called by user \<open>uid\<close> for appointment \<open>aid\<close>.\<close>

definition cancelAppointment :: "zone \<Rightarrow> date \<Rightarrow> nat \<Rightarrow> nat \<Rightarrow> db \<Rightarrow> response \<times> db" where
  "cancelAppointment z now uid aid s =
     (case findAppointmentById aid s of
        (Inl e, s1) \<Rightarrow> (serverError, s1)
      | (Inr None, s1) \<Rightarrow> (respond 404 False ''Appointment not found'', s1)
      | (Inr (Some a), s1) \<Rightarrow>
          if userId a \<noteq> uid
          then (respond 403 False ''Not authorized to cancel this appointment'', s1)
          else if status a = Completed
          then (respond 400 False ''Cannot cancel completed appointment'', s1)
          else if status a = Cancelled
          then (respond 400 False ''Appointment is already cancelled'', s1)
          else (case save now aid (\<lambda>x. x\<lparr>status := Cancelled\<rparr>) s1 of
             (Inl e, s2) \<Rightarrow> (serverError, s2)
           | (Inr u, s2) \<Rightarrow>
               (respond 200 True ''Appointment cancelled successfully'',
                snd (updateQueuePositions z now (organizationId a) (appointmentDate a) s2))))"

subsection \<open>Sequences of calls\<close>

text \<open>
  A call of one of the three state-changing handlers, with the acting user first, and a
  run of such calls, each at its own instant.
\<close>

datatype request =
    BookAppointment nat bookingRequest
  | UpdateAppointmentStatus nat nat "string option"
  | CancelAppointment nat nat

fun handle :: "zone \<Rightarrow> date \<Rightarrow> request \<Rightarrow> db \<Rightarrow> response \<times> db" where
  "handle z now (BookAppointment uid req) s = bookAppointment z now uid req s"
| "handle z now (UpdateAppointmentStatus uid aid statusArg) s =
     updateAppointmentStatus z now uid aid statusArg s"
| "handle z now (CancelAppointment uid aid) s = cancelAppointment z now uid aid s"

fun run :: "zone \<Rightarrow> (date \<times> request) list \<Rightarrow> db \<Rightarrow> db" where
  "run z [] s = s"
| "run z ((now, r) # rs) s = run z rs (snd (handle z now r s))"

text \<open>The status of the appointment that a lookup by id yields.\<close>

definition statusOf :: "nat \<Rightarrow> db \<Rightarrow> status option" where
  "statusOf aid s = map_option status (find (\<lambda>a. appt_id a = aid) (appointments s))"

section \<open>Notions of the specification\<close>

text \<open>
  The calendar day of a date \<open>d\<close> runs from its local midnight through its local
  23:59:59.999, both included: the instants of the local time values
  \<open>localDay z d * msPerDay\<close> and \<open>localDay z d * msPerDay + 86399999\<close>.
\<close>

definition onLocalDay :: "zone \<Rightarrow> date \<Rightarrow> date \<Rightarrow> bool" where
  "onLocalDay z d x =
     (UTC z (localDay z d * msPerDay) \<le> x \<and> x \<le> UTC z (localDay z d * msPerDay + 86399999))"

text \<open>
  An appointment is active for an organization and a date when it belongs to the
  organization, its date falls on the calendar day of the date, and its status is pending
  or in-progress.
\<close>

definition activeOnDay :: "zone \<Rightarrow> nat \<Rightarrow> date \<Rightarrow> appointment \<Rightarrow> bool" where
  "activeOnDay z oid d a =
     (organizationId a = oid \<and> onLocalDay z d (appointmentDate a) \<and>
      (status a = Pending \<or> status a = InProgress))"




text \<open>
  Two properties of a zone. Local midnight starts the day: the instants before it are those
  of earlier local days. The last millisecond ends the day: the instants after it are those
  of later local days. Zones of a fixed offset have both, and so has a zone with daylight
  saving whose changes of offset stay clear of midnight.
\<close>

definition midnightStartsDay :: "zone \<Rightarrow> bool" where
  "midnightStartsDay z = (\<forall>t D. (localDay z t < D) = (t < UTC z (D * msPerDay)))"

definition lastMillisecondEndsDay :: "zone \<Rightarrow> bool" where
  "lastMillisecondEndsDay z =
     (\<forall>t D. (localDay z t \<le> D) = (t \<le> UTC z (D * msPerDay + 86399999)))"

section \<open>Auxiliary notions\<close>

text \<open>
  What the loop of \<open>updateQueuePositions\<close> makes of one stored appointment when it runs over
  the list \<open>as\<close> from index \<open>i\<close> and no \<^verbatim>\<open>save\<close> fails: the appointment gets the position of
  the first element of \<open>as\<close> that has its \<^verbatim>\<open>_id\<close>.
\<close>

fun renumbered :: "date \<Rightarrow> int \<Rightarrow> appointment list \<Rightarrow> appointment \<Rightarrow> appointment" where
  "renumbered now i [] x = x"
| "renumbered now i (a # as) x =
     (if appt_id a = appt_id x then x\<lparr>queuePosition := i + 1, updatedAt := now\<rparr>
      else renumbered now (i + 1) as x)"

text \<open>
  The user who owns the organization of appointment \<open>aid\<close>, when both are stored.
\<close>

definition ownerOfAppointment :: "nat \<Rightarrow> db \<Rightarrow> nat option" where
  "ownerOfAppointment aid s =
     (case find (\<lambda>a. appt_id a = aid) (appointments s) of
        None \<Rightarrow> None
      | Some a \<Rightarrow>
          (case find (\<lambda>org. org_id org = organizationId a) (organizations s) of
             None \<Rightarrow> None
           | Some org \<Rightarrow> Some (org_userId org)))"

text \<open>
  A call of \<open>updateAppointmentStatus\<close> that names appointment \<open>aid\<close>, carries one of the four
  status values and is made by the owner of the appointment's organization; and a run in
  which no call is such a call at the moment it is made.
\<close>

fun ownerSetsStatus :: "nat \<Rightarrow> request \<Rightarrow> db \<Rightarrow> bool" where
  "ownerSetsStatus aid (UpdateAppointmentStatus uid i statusArg) s =
     (i = aid \<and>
      (case statusArg of None \<Rightarrow> False | Some str \<Rightarrow> parseStatus str \<noteq> None) \<and>
      ownerOfAppointment aid s = Some uid)"
| "ownerSetsStatus aid (BookAppointment uid req) s = False"
| "ownerSetsStatus aid (CancelAppointment uid i) s = False"

fun noOwnerUpdate :: "zone \<Rightarrow> nat \<Rightarrow> (date \<times> request) list \<Rightarrow> db \<Rightarrow> bool" where
  "noOwnerUpdate z aid [] s = True"
| "noOwnerUpdate z aid ((now, r) # rs) s =
     (\<not> ownerSetsStatus aid r s \<and> noOwnerUpdate z aid rs (snd (handle z now r s)))"

section \<open>Example data\<close>

text \<open>
  An organization open on Mondays from 9:00 to 17:00, whose opening time is written
  without a leading zero (the schema's pattern accepts both \<^verbatim>\<open>9:00\<close> and \<^verbatim>\<open>09:00\<close>), and the
  instant Monday 5 January 1970, 10:30, in the zone \<open>utc\<close> without offset.
\<close>

definition clinic :: organization where
  "clinic = \<lparr>org_id = 1, org_userId = 7, organizationName = ''Clinic'',
     workingHours =
       [\<lparr>day = ''Monday'', startTime = ''9:00'', endTime = ''17:00'', isOpen = True\<rparr>],
     experts = [\<lparr>name = ''Dr. A'', specialization = ''GP'', available = True\<rparr>],
     appointmentDuration = 30\<rparr>"

definition utc :: zone where
  "utc = fixedZone 0"

text \<open>
  The zone of New York around the start of daylight saving in 2026: five hours behind UTC
  until 8 March 2026, 07:00 UTC, and four hours behind from then on. The local times
  between 2:00 and 3:00 of that day do not exist and are read with the offset before the
  change. That Sunday has 23 hours.
\<close>

definition easternSpring2026 :: zone where
  "easternSpring2026 =
     \<lparr>LocalTime = (\<lambda>t. if t < 1772953200000 then t - 18000000 else t - 14400000),
      UTC = (\<lambda>l. if l < 1772938800000 then l + 18000000 else l + 14400000)\<rparr>"

text \<open>
  Working hours with more than one entry for a day: on Sundays the first entry is closed
  and the second is open from 10:00 to 14:00.
\<close>

definition weekHours :: "workingHour list" where
  "weekHours =
     [\<lparr>day = ''Thursday'', startTime = ''08:00'', endTime = ''12:00'', isOpen = True\<rparr>,
      \<lparr>day = ''Sunday'', startTime = ''00:00'', endTime = ''23:59'', isOpen = False\<rparr>,
      \<lparr>day = ''Sunday'', startTime = ''10:00'', endTime = ''14:00'', isOpen = True\<rparr>,
      \<lparr>day = ''Saturday'', startTime = ''22:00'', endTime = ''23:45'', isOpen = True\<rparr>]"

definition mondayMorning :: date where
  "mondayMorning = 383400000"


text \<open>
  A store with four appointments of the clinic on Monday 5 January 1970, created in the
  order A, B, C, D: A and C are pending, B was cancelled and D is completed, and the queue
  positions are still those given at booking time.
\<close>

definition monday :: date where
  "monday = 345600000"

definition apptA :: appointment where
  "apptA = \<lparr>appt_id = 1, userId = 11, organizationId = 1, expertName = ''Dr. A'',
     serviceName = ''Checkup'', appointmentDate = 345600000, appointmentTime = ''09:00'',
     status = Pending, queuePosition = 1, estimatedWaitTime = 0, appt_notes = None,
     createdAt = 100, updatedAt = 100\<rparr>"

definition apptB :: appointment where
  "apptB = \<lparr>appt_id = 2, userId = 12, organizationId = 1, expertName = ''Dr. A'',
     serviceName = ''Checkup'', appointmentDate = 345600000, appointmentTime = ''09:30'',
     status = Cancelled, queuePosition = 2, estimatedWaitTime = 30, appt_notes = None,
     createdAt = 200, updatedAt = 250\<rparr>"

definition apptC :: appointment where
  "apptC = \<lparr>appt_id = 3, userId = 13, organizationId = 1, expertName = ''Dr. A'',
     serviceName = ''Checkup'', appointmentDate = 345600000, appointmentTime = ''10:00'',
     status = Pending, queuePosition = 3, estimatedWaitTime = 60, appt_notes = None,
     createdAt = 300, updatedAt = 300\<rparr>"

definition apptD :: appointment where
  "apptD = \<lparr>appt_id = 4, userId = 14, organizationId = 1, expertName = ''Dr. A'',
     serviceName = ''Checkup'', appointmentDate = 345600000, appointmentTime = ''11:00'',
     status = Completed, queuePosition = 4, estimatedWaitTime = 90, appt_notes = None,
     createdAt = 400, updatedAt = 450\<rparr>"

definition queueDb :: db where
  "queueDb = \<lparr>appointments = [apptA, apptB, apptC, apptD], organizations = [clinic], faults = []\<rparr>"

text \<open>
  Two pending appointments of the clinic in New York: one on Sunday 8 March 2026 at noon
  local time, and one half an hour after the following midnight, 33 minutes less than
  24 hours after the Sunday began.
\<close>

definition springSunday :: date where
  "springSunday = 1772985600000"

definition springDb :: db where
  "springDb =
     \<lparr>appointments =
        [apptA\<lparr>appointmentDate := 1772985600000\<rparr>, apptC\<lparr>appointmentDate := 1773030600000\<rparr>],
      organizations = [clinic], faults = []\<rparr>"

text \<open>
  A booking request for Sunday 4 January 1970, the day before \<open>mondayMorning\<close>, and a run
  of calls on the example store: among them three calls to set the status of the cancelled
  appointment B, by a user who does not own the clinic, with a string that is no status,
  and without a status.
\<close>

definition pastRequest :: bookingRequest where
  "pastRequest = \<lparr>req_organizationId = Some 1, req_expertName = Some ''Dr. A'',
     req_serviceName = Some ''Checkup'', req_appointmentDate = Some 259200000,
     req_appointmentTime = Some ''10:30'', req_notes = None\<rparr>"

definition exampleCalls :: "(date \<times> request) list" where
  "exampleCalls =
     [(383400000, CancelAppointment 12 2),
      (383410000, UpdateAppointmentStatus 12 2 (Some ''pending'')),
      (383420000, UpdateAppointmentStatus 7 2 (Some ''reopened'')),
      (383430000, UpdateAppointmentStatus 7 2 None),
      (383460000, BookAppointment 15 (pastRequest\<lparr>req_appointmentDate := Some 345600000\<rparr>)),
      (383520000, UpdateAppointmentStatus 7 1 (Some ''completed'')),
      (383580000, CancelAppointment 13 3)]"

text \<open>
  The scenarios of the specification: a store with the clinic and no appointment, a request
  for the clinic's expert on the example Monday at a given time, and the example store with
  A, B and C all pending.
\<close>

definition emptyDb :: db where
  "emptyDb = \<lparr>appointments = [], organizations = [clinic], faults = []\<rparr>"

definition mondayRequest :: "string \<Rightarrow> bookingRequest" where
  "mondayRequest t = \<lparr>req_organizationId = Some 1, req_expertName = Some ''Dr. A'',
     req_serviceName = Some ''Checkup'', req_appointmentDate = Some 345600000,
     req_appointmentTime = Some t, req_notes = None\<rparr>"

definition pendingDb :: db where
  "pendingDb = \<lparr>appointments = [apptA, apptB\<lparr>status := Pending\<rparr>, apptC],
     organizations = [clinic], faults = []\<rparr>"

section \<open>Properties of the policy functions\<close>

subsection \<open>Calendar days\<close>

lemma div_eq_iff_window:
  fixes y :: int
  assumes "0 < m"
  shows "(y div m = q) = (q * m \<le> y \<and> y < q * m + m)"
proof
  assume "y div m = q"
  then have "y = q * m + y mod m" by (metis mult.commute mult_div_mod_eq)
  moreover have "0 \<le> y mod m" "y mod m < m" using assms by simp_all
  ultimately show "q * m \<le> y \<and> y < q * m + m" by linarith
next
  assume h: "q * m \<le> y \<and> y < q * m + m"
  have "y = m * q + (y - q * m)" by (simp add: mult.commute)
  moreover have "0 \<le> y - q * m" "y - q * m < m" using h by linarith+
  ultimately show "y div m = q" using int_div_pos_eq by blast
qed

lemma div_less_iff_window:
  fixes y :: int
  assumes "0 < m"
  shows "(y div m < q) = (y < q * m)"
proof -
  have w: "y div m * m \<le> y \<and> y < y div m * m + m"
    using div_eq_iff_window [OF assms, of y "y div m"] by simp
  show ?thesis
  proof
    assume "y div m < q"
    then have "y div m + 1 \<le> q" by simp
    then have "(y div m + 1) * m \<le> q * m" using assms by (intro mult_right_mono) simp_all
    then show "y < q * m" using w by (simp add: algebra_simps)
  next
    assume "y < q * m"
    then have "y div m * m < q * m" using w by linarith
    then show "y div m < q" using assms by simp
  qed
qed

lemma midnightStartsDay_fixedZone: "midnightStartsDay (fixedZone off)"
proof -
  have m: "0 < msPerDay" by (simp add: msPerDay_def)
  show ?thesis
    unfolding midnightStartsDay_def localDay_def fixedZone_def
    using div_less_iff_window [OF m] by auto
qed

lemma lastMillisecondEndsDay_fixedZone: "lastMillisecondEndsDay (fixedZone off)"
proof -
  have m: "0 < msPerDay" by (simp add: msPerDay_def)
  have "((t + off) div msPerDay \<le> D) = (t \<le> D * msPerDay + 86399999 - off)" for t D
  proof -
    have "((t + off) div msPerDay \<le> D) = ((t + off) div msPerDay < D + 1)" by linarith
    also have "\<dots> = (t + off < (D + 1) * msPerDay)" by (rule div_less_iff_window [OF m])
    also have "\<dots> = (t \<le> D * msPerDay + 86399999 - off)"
      by (simp add: msPerDay_def algebra_simps) linarith
    finally show ?thesis .
  qed
  then show ?thesis
    unfolding lastMillisecondEndsDay_def localDay_def fixedZone_def by simp
qed

lemma div_le_iff_window:
  fixes y :: int
  shows "(y div msPerDay \<le> D) = (y \<le> D * msPerDay + 86399999)"
proof -
  have m: "0 < msPerDay" by (simp add: msPerDay_def)
  have "(y div msPerDay \<le> D) = (y div msPerDay < D + 1)" by linarith
  also have "\<dots> = (y < (D + 1) * msPerDay)" by (rule div_less_iff_window [OF m])
  also have "\<dots> = (y \<le> D * msPerDay + 86399999)"
    by (simp add: msPerDay_def algebra_simps) linarith
  finally show ?thesis .
qed

text \<open>The zone of New York has both properties: its change of offset is at 2:00.\<close>

lemma midnightStartsDay_easternSpring2026: "midnightStartsDay easternSpring2026"
proof -
  have m: "0 < msPerDay" by (simp add: msPerDay_def)
  have "((if t < 1772953200000 then t - 18000000 else t - 14400000) < D * msPerDay) =
        (t < (if D * msPerDay < 1772938800000 then D * msPerDay + 18000000
              else D * msPerDay + 14400000))" for t D :: int
  proof (cases "D \<le> 20520")
    case True
    then have "D * msPerDay \<le> 1772928000000" by (simp add: msPerDay_def)
    then show ?thesis by auto
  next
    case False
    then have "1773014400000 \<le> D * msPerDay" by (simp add: msPerDay_def)
    then show ?thesis by auto
  qed
  then show ?thesis
    unfolding midnightStartsDay_def localDay_def easternSpring2026_def
    using div_less_iff_window [OF m] by simp
qed

lemma lastMillisecondEndsDay_easternSpring2026: "lastMillisecondEndsDay easternSpring2026"
proof -
  have "((if t < 1772953200000 then t - 18000000 else t - 14400000)
           \<le> D * msPerDay + 86399999) =
        (t \<le> (if D * msPerDay + 86399999 < 1772938800000 then D * msPerDay + 86399999 + 18000000
              else D * msPerDay + 86399999 + 14400000))" for t D :: int
  proof (cases "D \<le> 20519")
    case True
    then have "D * msPerDay \<le> 1772841600000" by (simp add: msPerDay_def)
    then show ?thesis by auto
  next
    case False
    then have "1772928000000 \<le> D * msPerDay" by (simp add: msPerDay_def)
    then show ?thesis by auto
  qed
  then show ?thesis
    unfolding lastMillisecondEndsDay_def localDay_def easternSpring2026_def
    using div_le_iff_window by simp
qed

text \<open>
  In a zone with both properties, the calendar day of \<open>d\<close> holds exactly the instants whose
  local day number is that of \<open>d\<close>.
\<close>

lemma onLocalDay_calendar:
  assumes "midnightStartsDay z" and "lastMillisecondEndsDay z"
  shows "onLocalDay z d x = (localDay z x = localDay z d)"
proof -
  have "(x < UTC z (localDay z d * msPerDay)) = (localDay z x < localDay z d)"
    using assms(1) by (simp add: midnightStartsDay_def)
  moreover have "(x \<le> UTC z (localDay z d * msPerDay + 86399999)) = (localDay z x \<le> localDay z d)"
    using assms(2) by (simp add: lastMillisecondEndsDay_def)
  ultimately show ?thesis unfolding onLocalDay_def by linarith
qed

lemma dayQuery_activeOnDay: "dayQuery z oid d = activeOnDay z oid d"
  by (simp add: dayQuery_def activeOnDay_def onLocalDay_def startOfDay_def endOfDay_def
      fun_eq_iff)

subsection \<open>Queue position of a new appointment\<close>

text \<open>
  Claim C4. For every organization id and date, \<open>calculateQueuePosition\<close> returns one plus
  the number of stored appointments of that organization whose date falls on the calendar
  day of the date, from its local midnight through its local 23:59:59.999, both included,
  and whose status is pending or in-progress; when the count query fails, it returns 1.
  Where local midnight starts the day and the last millisecond ends it, these are the
  appointments whose local day number is that of the date.
\<close>

theorem calculateQueuePosition_counts_day:
  "fst (calculateQueuePosition z oid d t s) =
     (if nextFails s then 1
      else 1 + int (length (filter
        (\<lambda>a. organizationId a = oid \<and>
             UTC z (localDay z d * msPerDay) \<le> appointmentDate a \<and>
             appointmentDate a \<le> UTC z (localDay z d * msPerDay + 86399999) \<and>
             (status a = Pending \<or> status a = InProgress))
        (appointments s)))) \<and>
   (midnightStartsDay z \<and> lastMillisecondEndsDay z \<longrightarrow>
      fst (calculateQueuePosition z oid d t s) =
        (if nextFails s then 1
         else 1 + int (length (filter
           (\<lambda>a. organizationId a = oid \<and>
                localDay z (appointmentDate a) = localDay z d \<and>
                (status a = Pending \<or> status a = InProgress))
           (appointments s)))))"
proof -
  have q: "dayQuery z oid d =
      (\<lambda>a. organizationId a = oid \<and>
             UTC z (localDay z d * msPerDay) \<le> appointmentDate a \<and>
             appointmentDate a \<le> UTC z (localDay z d * msPerDay + 86399999) \<and>
             (status a = Pending \<or> status a = InProgress))"
    by (simp add: dayQuery_def startOfDay_def endOfDay_def fun_eq_iff)
  have c: "fst (calculateQueuePosition z oid d t s) =
     (if nextFails s then 1 else 1 + int (length (filter (dayQuery z oid d) (appointments s))))"
    by (simp add: calculateQueuePosition_def countDocuments_def nextFails_def
        split: prod.splits bool.splits sum.splits)
  have "dayQuery z oid d =
      (\<lambda>a. organizationId a = oid \<and> localDay z (appointmentDate a) = localDay z d \<and>
             (status a = Pending \<or> status a = InProgress))"
    if "midnightStartsDay z" "lastMillisecondEndsDay z"
    using onLocalDay_calendar [OF that]
    by (simp add: dayQuery_activeOnDay activeOnDay_def fun_eq_iff)
  then show ?thesis using c q by simp
qed

subsection \<open>Estimated wait\<close>

text \<open>
  Claim C7. For every queue position \<open>k \<ge> 1\<close> and duration \<open>d \<ge> 0\<close>,
  \<open>calculateEstimatedWaitTime k d\<close> is \<open>max 0 ((k - 1) * d)\<close>, which is \<open>(k - 1) * d\<close>; and at
  position 1 the wait is 0 for every duration.
\<close>

theorem calculateEstimatedWaitTime_value:
  "1 \<le> k \<Longrightarrow> 0 \<le> d \<Longrightarrow>
     calculateEstimatedWaitTime k (Some d) = max 0 ((k - 1) * d) \<and>
     calculateEstimatedWaitTime k (Some d) = (k - 1) * d \<and>
     calculateEstimatedWaitTime 1 (Some d') = 0"
  by (simp add: calculateEstimatedWaitTime_def)

theorem calculateEstimatedWaitTime_value_witness:
  "(1::int) \<le> 3 \<and> (0::int) \<le> 30 \<and>
   calculateEstimatedWaitTime 3 (Some 30) = 60 \<and> calculateEstimatedWaitTime 1 (Some 45) = 0"
  using calculateEstimatedWaitTime_value [of 3 30 45] by simp

subsection \<open>Slot availability\<close>

text \<open>
  Claim C5, amended. \<open>isSlotAvailable\<close> returns false if and only if the query fails or some
  stored appointment of the same organization, on the same calendar day, with exactly the
  same time string and with the trimmed expert name as its expert name is pending or
  in-progress. So an appointment whose time string differs never makes the slot
  unavailable.
\<close>

theorem isSlotAvailable_iff:
  "(fst (isSlotAvailable z oid d t en s) = False) =
     (nextFails s \<or>
      (\<exists>a \<in> set (appointments s).
          activeOnDay z oid d a \<and> appointmentTime a = t \<and> expertName a = trim en))"
  by (auto simp add: isSlotAvailable_def findOne_def dayQuery_activeOnDay nextFails_def
      find_None_iff
      split: prod.splits bool.splits sum.splits)

subsection \<open>Working hours\<close>

lemmas number_defs = Number_def trim_def isWhiteSpace_def nonDecimalLiteral_def
  strDecimalLiteral_def unsignedDecimal_def exponentPart_def signedDigits_def decimalValue_def
  radixLiteral_def digitOf_def pow10_def isDigit_def jsGe_def jsNeg_def jsSign_def Let_def






lemma isDigit_zero [simp]: "isDigit CHR ''0''"
  by (simp add: isDigit_def)




lemma isDigitUpTo_isDigit: "isDigitUpTo k c \<Longrightarrow> k \<le> 9 \<Longrightarrow> isDigit c"
  by (simp add: isDigitUpTo_def isDigit_def)



subsection \<open>The open flag of an organization\<close>

text \<open>
  Claim C9 says that \<open>isCurrentlyOpen\<close> is true exactly when the first open entry of the
  current weekday exists and the current time lies in its interval. The getter compares
  strings: on Monday at 10:30 the clinic that opens at \<^verbatim>\<open>9:00\<close> and closes at \<^verbatim>\<open>17:00\<close> is
  reported closed, because \<^verbatim>\<open>10:30\<close> is below \<^verbatim>\<open>9:00\<close> as a string; \<open>isWithinWorkingHours\<close>,
  which compares minutes, accepts the same time on the same entry.
\<close>

theorem isCurrentlyOpen_unpadded_opening_time:
  "isCurrentlyOpen utc mondayMorning clinic = False \<and>
   isWithinWorkingHours utc (workingHours clinic) mondayMorning ''10:30'' = True"
  by (simp add: isCurrentlyOpen_def isWithinWorkingHours_def clinic_def mondayMorning_def
      getDay_def localDay_def utc_def fixedZone_def onLocalDay_def msPerDay_def dayNames_def getHours_def getMinutes_def
      padStart2_def digitChar_def strGe_def strLe_def
      timeToMinutes_def number_defs)

section \<open>Renumbering the queue\<close>

lemma length_updateOne [simp]: "length (updateOne p f xs) = length xs"
  by (induction xs) auto

lemma nth_updateOne_cases:
  "k < length xs \<Longrightarrow> updateOne p f xs ! k = xs ! k \<or> updateOne p f xs ! k = f (xs ! k)"
proof (induction xs arbitrary: k)
  case Nil
  then show ?case by simp
next
  case (Cons x xs)
  then show ?case by (cases k) auto
qed

lemma updateOne_distinct_ids:
  "distinct (map appt_id xs) \<Longrightarrow>
   updateOne (\<lambda>a. appt_id a = i) f xs = map (\<lambda>a. if appt_id a = i then f a else a) xs"
proof (induction xs)
  case Nil
  then show ?case by simp
next
  case (Cons x xs)
  show ?case
  proof (cases "appt_id x = i")
    case True
    then have "i \<notin> appt_id ` set xs" using Cons.prems by auto
    then have "map (\<lambda>a. if appt_id a = i then f a else a) xs = xs"
      by (intro map_idI) auto
    then show ?thesis using True by simp
  next
    case False
    then show ?thesis using Cons by simp
  qed
qed

lemma storeOp_appointments [simp]: "appointments (snd (storeOp s)) = appointments s"
  by (simp add: storeOp_def split: list.splits)

lemma storeOp_organizations [simp]: "organizations (snd (storeOp s)) = organizations s"
  by (simp add: storeOp_def split: list.splits)

lemma save_result:
  "save now i g s = (r, s') \<Longrightarrow>
     organizations s' = organizations s \<and>
     (r = Inr () \<and>
        appointments s' =
          updateOne (\<lambda>a. appt_id a = i) (\<lambda>a. (g a)\<lparr>updatedAt := now\<rparr>) (appointments s) \<or>
      r = Inl StoreError \<and> appointments s' = appointments s)"
  by (auto simp add: save_def storeOp_def split: prod.splits bool.splits list.splits)

lemma sameExcept_trans:
  fixes a b c :: appointment
  assumes "b\<lparr>queuePosition := queuePosition a, updatedAt := updatedAt a\<rparr> = a"
      and "c\<lparr>queuePosition := queuePosition b, updatedAt := updatedAt b\<rparr> = b"
  shows "c\<lparr>queuePosition := queuePosition a, updatedAt := updatedAt a\<rparr> = a"
  using assms by (cases a, cases b, cases c) simp

lemma renumberFrom_frame:
  "renumberFrom now i as s = (r, s') \<Longrightarrow>
     organizations s' = organizations s \<and>
     length (appointments s') = length (appointments s) \<and>
     (\<forall>k < length (appointments s).
        (appointments s' ! k)\<lparr>queuePosition := queuePosition (appointments s ! k),
                               updatedAt := updatedAt (appointments s ! k)\<rparr> = appointments s ! k \<and>
        (queuePosition (appointments s' ! k) = queuePosition (appointments s ! k) \<or>
         i + 1 \<le> queuePosition (appointments s' ! k)))"
proof (induction as arbitrary: i s)
  case Nil
  then show ?case by simp
next
  case (Cons a as)
  obtain r1 s1 where sv: "save now (appt_id a) (\<lambda>x. x\<lparr>queuePosition := i + 1\<rparr>) s = (r1, s1)"
    by (cases "save now (appt_id a) (\<lambda>x. x\<lparr>queuePosition := i + 1\<rparr>) s")
  note fr = save_result [OF sv]
  have len1: "length (appointments s1) = length (appointments s)"
    using fr by auto
  have step: "appointments s1 ! k = appointments s ! k \<or>
      appointments s1 ! k = (appointments s ! k)\<lparr>queuePosition := i + 1, updatedAt := now\<rparr>"
    if "k < length (appointments s)" for k
    using fr nth_updateOne_cases [OF that, of "\<lambda>b. appt_id b = appt_id a"
        "\<lambda>a. a\<lparr>queuePosition := i + 1, updatedAt := now\<rparr>"]
    by auto
  have a1: "(appointments s1 ! k)\<lparr>queuePosition := queuePosition (appointments s ! k),
             updatedAt := updatedAt (appointments s ! k)\<rparr> = appointments s ! k"
    if "k < length (appointments s)" for k
    using step [OF that] by auto
  have q1: "queuePosition (appointments s1 ! k) = queuePosition (appointments s ! k) \<or>
            queuePosition (appointments s1 ! k) = i + 1"
    if "k < length (appointments s)" for k
    using step [OF that] by auto
  have o1: "organizations s1 = organizations s" using fr by simp
  show ?case
  proof (cases r1)
    case (Inl e)
    then have "s' = s1" using Cons.prems sv by simp
    moreover have "queuePosition (appointments s1 ! k) = queuePosition (appointments s ! k) \<or>
            i + 1 \<le> queuePosition (appointments s1 ! k)"
      if "k < length (appointments s)" for k
      using q1 [OF that] by auto
    ultimately show ?thesis using o1 len1 a1 by blast
  next
    case (Inr u)
    then have rest: "renumberFrom now (i + 1) as s1 = (r, s')" using Cons.prems sv by simp
    note ih = Cons.IH [OF rest]
    show ?thesis
    proof (intro conjI allI impI)
      show "organizations s' = organizations s" using ih o1 by simp
      show "length (appointments s') = length (appointments s)" using ih len1 by simp
    next
      fix k assume k: "k < length (appointments s)"
      then have k1: "k < length (appointments s1)" using len1 by simp
      have a2: "(appointments s' ! k)\<lparr>queuePosition := queuePosition (appointments s1 ! k),
             updatedAt := updatedAt (appointments s1 ! k)\<rparr> = appointments s1 ! k"
        using ih k1 by blast
      show "(appointments s' ! k)\<lparr>queuePosition := queuePosition (appointments s ! k),
             updatedAt := updatedAt (appointments s ! k)\<rparr> = appointments s ! k"
        using sameExcept_trans [OF a1 [OF k] a2] .
      have "queuePosition (appointments s' ! k) = queuePosition (appointments s1 ! k) \<or>
            i + 1 + 1 \<le> queuePosition (appointments s' ! k)"
        using ih k1 by blast
      then show "queuePosition (appointments s' ! k) = queuePosition (appointments s ! k) \<or>
         i + 1 \<le> queuePosition (appointments s' ! k)"
        using q1 [OF k] by auto
    qed
  qed
qed

lemma findSorted_result:
  "findSortedByCreatedAt q s = (r, s1) \<Longrightarrow>
     organizations s1 = organizations s \<and> appointments s1 = appointments s \<and>
     (r = Inr (sort_key createdAt (filter q (appointments s))) \<or> r = Inl StoreError)"
  by (auto simp add: findSortedByCreatedAt_def storeOp_def split: prod.splits bool.splits list.splits)

lemma updateQueuePositions_frame_aux:
  "organizations (snd (updateQueuePositions z now oid d s)) = organizations s \<and>
   length (appointments (snd (updateQueuePositions z now oid d s))) = length (appointments s) \<and>
   (\<forall>k < length (appointments s).
      (appointments (snd (updateQueuePositions z now oid d s)) ! k)
         \<lparr>queuePosition := queuePosition (appointments s ! k),
          updatedAt := updatedAt (appointments s ! k)\<rparr> = appointments s ! k \<and>
      (queuePosition (appointments (snd (updateQueuePositions z now oid d s)) ! k) =
         queuePosition (appointments s ! k) \<or>
       1 \<le> queuePosition (appointments (snd (updateQueuePositions z now oid d s)) ! k)))"
proof -
  obtain r s1 where f: "findSortedByCreatedAt (dayQuery z oid d) s = (r, s1)"
    by (cases "findSortedByCreatedAt (dayQuery z oid d) s")
  note fs = findSorted_result [OF f]
  show ?thesis
  proof (cases r)
    case (Inl e)
    then have "snd (updateQueuePositions z now oid d s) = s1"
      using f by (simp add: updateQueuePositions_def)
    then show ?thesis using fs by (cases "appointments s") auto
  next
    case (Inr found)
    obtain r2 s2 where l: "renumberFrom now 0 found s1 = (r2, s2)"
      by (cases "renumberFrom now 0 found s1")
    have "snd (updateQueuePositions z now oid d s) = s2"
      using f l Inr by (simp add: updateQueuePositions_def split: sum.splits)
    then show ?thesis using renumberFrom_frame [OF l] fs by simp
  qed
qed


lemma wait_differs:
  fixes qo qn dur :: int
  assumes "qn \<noteq> qo" "1 \<le> qo" "1 \<le> qn" "0 < dur"
  shows "calculateEstimatedWaitTime qo (Some dur) \<noteq> calculateEstimatedWaitTime qn (Some dur)"
proof -
  have "0 \<le> (qo - 1) * dur" "0 \<le> (qn - 1) * dur" using assms by simp_all
  moreover have "(qo - 1) * dur \<noteq> (qn - 1) * dur" using assms by simp
  ultimately show ?thesis by (simp add: calculateEstimatedWaitTime_def)
qed

text \<open>
  Claim C10. \<open>updateQueuePositions\<close> changes nothing but the \<open>queuePosition\<close> and the
  \<open>updatedAt\<close> of stored appointments: the organizations, the number and order of the
  appointments and every other field of every appointment are as before, in particular
  the \<open>estimatedWaitTime\<close>. So an appointment whose position changes, and whose stored wait
  was the wait of its old position for a positive duration, no longer holds the wait of its
  new position.
\<close>

theorem updateQueuePositions_touches_position_only:
  assumes "k < length (appointments s)"
  shows "organizations (snd (updateQueuePositions z now oid d s)) = organizations s \<and>
     length (appointments (snd (updateQueuePositions z now oid d s))) = length (appointments s) \<and>
     (appointments (snd (updateQueuePositions z now oid d s)) ! k)
         \<lparr>queuePosition := queuePosition (appointments s ! k),
          updatedAt := updatedAt (appointments s ! k)\<rparr> = appointments s ! k \<and>
     estimatedWaitTime (appointments (snd (updateQueuePositions z now oid d s)) ! k) =
       estimatedWaitTime (appointments s ! k) \<and>
     (queuePosition (appointments (snd (updateQueuePositions z now oid d s)) ! k) \<noteq>
        queuePosition (appointments s ! k) \<and>
      1 \<le> queuePosition (appointments s ! k) \<and> 0 < dur \<and>
      estimatedWaitTime (appointments s ! k) =
        calculateEstimatedWaitTime (queuePosition (appointments s ! k)) (Some dur)
      \<longrightarrow> estimatedWaitTime (appointments (snd (updateQueuePositions z now oid d s)) ! k) \<noteq>
          calculateEstimatedWaitTime
            (queuePosition (appointments (snd (updateQueuePositions z now oid d s)) ! k))
            (Some dur))"
proof -
  let ?a = "appointments s ! k"
  let ?a' = "appointments (snd (updateQueuePositions z now oid d s)) ! k"
  note aux = updateQueuePositions_frame_aux [of z now oid d s]
  have same: "?a'\<lparr>queuePosition := queuePosition ?a, updatedAt := updatedAt ?a\<rparr> = ?a"
    using aux assms by blast
  have pos: "queuePosition ?a' = queuePosition ?a \<or> 1 \<le> queuePosition ?a'"
    using aux assms by blast
  have "estimatedWaitTime (?a'\<lparr>queuePosition := queuePosition ?a, updatedAt := updatedAt ?a\<rparr>) =
        estimatedWaitTime ?a"
    using same by simp
  then have ewt: "estimatedWaitTime ?a' = estimatedWaitTime ?a" by simp
  have "estimatedWaitTime ?a' \<noteq> calculateEstimatedWaitTime (queuePosition ?a') (Some dur)"
    if "queuePosition ?a' \<noteq> queuePosition ?a" "1 \<le> queuePosition ?a" "0 < dur"
       "estimatedWaitTime ?a = calculateEstimatedWaitTime (queuePosition ?a) (Some dur)"
    using wait_differs [of "queuePosition ?a'" "queuePosition ?a" dur] that pos ewt by auto
  then show ?thesis using aux same ewt by blast
qed


lemma renumbered_other:
  "appt_id x \<notin> appt_id ` set as \<Longrightarrow> renumbered now i as x = x"
  by (induction as arbitrary: i) auto

lemma renumbered_at:
  "j < length as \<Longrightarrow> distinct (map appt_id as) \<Longrightarrow> appt_id (as ! j) = appt_id x \<Longrightarrow>
     renumbered now i as x = x\<lparr>queuePosition := i + int j + 1, updatedAt := now\<rparr>"
proof (induction as arbitrary: i j)
  case Nil
  then show ?case by simp
next
  case (Cons a as)
  show ?case
  proof (cases j)
    case 0
    then show ?thesis using Cons.prems by simp
  next
    case (Suc j')
    then have j': "j' < length as" "appt_id (as ! j') = appt_id x" using Cons.prems by simp_all
    then have "appt_id x \<in> appt_id ` set as" by (metis imageI nth_mem)
    then have "appt_id a \<noteq> appt_id x" using Cons.prems(2) by auto
    moreover have "renumbered now (i + 1) as x =
        x\<lparr>queuePosition := i + 1 + int j' + 1, updatedAt := now\<rparr>"
      using Cons.IH [OF j'(1) _ j'(2)] Cons.prems(2) by simp
    ultimately show ?thesis using Suc by simp
  qed
qed

lemma renumbered_keeps:
  "appt_id (renumbered now i as x) = appt_id x"
  "organizationId (renumbered now i as x) = organizationId x"
  "appointmentDate (renumbered now i as x) = appointmentDate x"
  "status (renumbered now i as x) = status x"
  "createdAt (renumbered now i as x) = createdAt x"
  by (induction as arbitrary: i) auto

lemma renumberFrom_success:
  "renumberFrom now i as s = (Inr u, s') \<Longrightarrow> distinct (map appt_id (appointments s)) \<Longrightarrow>
   distinct (map appt_id as) \<Longrightarrow>
     appointments s' = map (renumbered now i as) (appointments s)"
proof (induction as arbitrary: i s)
  case Nil
  then show ?case by simp
next
  case (Cons a as)
  obtain r1 s1 where sv: "save now (appt_id a) (\<lambda>x. x\<lparr>queuePosition := i + 1\<rparr>) s = (r1, s1)"
    by (cases "save now (appt_id a) (\<lambda>x. x\<lparr>queuePosition := i + 1\<rparr>) s")
  have r1: "r1 = Inr ()" using Cons.prems(1) sv by (cases r1) auto
  then have rest: "renumberFrom now (i + 1) as s1 = (Inr u, s')" using Cons.prems(1) sv by simp
  let ?step = "\<lambda>x. if appt_id x = appt_id a
                   then x\<lparr>queuePosition := i + 1, updatedAt := now\<rparr> else x"
  have s1: "appointments s1 = map ?step (appointments s)"
    using save_result [OF sv] r1 updateOne_distinct_ids [OF Cons.prems(2)] by simp
  have "map appt_id (appointments s1) = map appt_id (appointments s)"
    unfolding s1 by (simp add: comp_def cong: if_cong)
  then have d1: "distinct (map appt_id (appointments s1))" using Cons.prems(2) by simp
  have d2: "distinct (map appt_id as)" using Cons.prems(3) by simp
  have "appointments s' = map (renumbered now (i + 1) as) (appointments s1)"
    using Cons.IH [OF rest d1 d2] .
  also have "\<dots> = map (\<lambda>x. renumbered now (i + 1) as (?step x)) (appointments s)"
    unfolding s1 by (simp add: comp_def)
  also have "\<dots> = map (renumbered now i (a # as)) (appointments s)"
  proof (rule map_cong [OF refl])
    fix x
    show "renumbered now (i + 1) as (?step x) = renumbered now i (a # as) x"
    proof (cases "appt_id x = appt_id a")
      case True
      have "appt_id a \<notin> appt_id ` set as" using Cons.prems(3) by auto
      then have "renumbered now (i + 1) as (x\<lparr>queuePosition := i + 1, updatedAt := now\<rparr>) =
             x\<lparr>queuePosition := i + 1, updatedAt := now\<rparr>"
        using True by (intro renumbered_other) simp
      then show ?thesis using True by simp
    next
      case False
      then show ?thesis by auto
    qed
  qed
  finally show ?case .
qed

lemma activeOnDay_renumbered:
  "activeOnDay z oid d (renumbered now i as x) = activeOnDay z oid d x"
  by (simp add: activeOnDay_def renumbered_keeps)

lemma updateQueuePositions_success:
  assumes "updateQueuePositions z now oid d s = (True, s')"
      and "distinct (map appt_id (appointments s))"
  shows "appointments s' =
     map (renumbered now 0 (sort_key createdAt (filter (activeOnDay z oid d) (appointments s))))
       (appointments s)"
proof -
  let ?S = "sort_key createdAt (filter (activeOnDay z oid d) (appointments s))"
  obtain r s1 where f: "findSortedByCreatedAt (dayQuery z oid d) s = (r, s1)"
    by (cases "findSortedByCreatedAt (dayQuery z oid d) s")
  note fs = findSorted_result [OF f]
  have r: "r = Inr ?S"
    using assms(1) f fs by (auto simp add: updateQueuePositions_def dayQuery_activeOnDay)
  obtain r2 s2 where l: "renumberFrom now 0 ?S s1 = (r2, s2)"
    by (cases "renumberFrom now 0 ?S s1")
  have "r2 = Inr () \<and> s2 = s'"
    using assms(1) f r l by (cases r2) (auto simp add: updateQueuePositions_def)
  then have l': "renumberFrom now 0 ?S s1 = (Inr (), s')" using l by simp
  have inj: "inj_on appt_id (set (appointments s))" and dx: "distinct (appointments s)"
    using assms(2) by (simp_all add: distinct_map)
  have "distinct (map appt_id ?S)"
    unfolding distinct_map using dx inj by (auto intro: inj_on_subset)
  then show ?thesis
    using renumberFrom_success [OF l'] assms(2) fs by simp
qed


text \<open>
  Claim C1. When \<open>updateQueuePositions\<close> for an organization and a date runs to its end
  without a store error, on a store whose appointments have distinct ids (as every store
  that the handlers produce from such a store has), the appointments
  of that organization and calendar day that are pending or in-progress hold pairwise
  different queue positions that form exactly the set \<open>{1..N}\<close>, \<open>N\<close> being their number,
  and an appointment created earlier holds the smaller position.
\<close>

theorem updateQueuePositions_contiguous:
  assumes ok: "updateQueuePositions z now oid d s = (True, s')"
      and ids: "distinct (map appt_id (appointments s))"
  shows "distinct (map queuePosition (filter (activeOnDay z oid d) (appointments s'))) \<and>
     set (map queuePosition (filter (activeOnDay z oid d) (appointments s'))) =
       {1 .. int (length (filter (activeOnDay z oid d) (appointments s')))} \<and>
     (\<forall>a \<in> set (filter (activeOnDay z oid d) (appointments s')).
      \<forall>b \<in> set (filter (activeOnDay z oid d) (appointments s')).
        createdAt a < createdAt b \<longrightarrow> queuePosition a < queuePosition b)"
proof -
  let ?A = "activeOnDay z oid d"
  let ?ys = "filter ?A (appointments s)"
  let ?S = "sort_key createdAt ?ys"
  let ?G = "renumbered now 0 ?S"
  let ?q = "filter ?A (appointments s')"
  have q: "?q = map ?G ?ys"
    unfolding updateQueuePositions_success [OF ok ids]
    by (simp add: filter_map comp_def activeOnDay_renumbered)
  have inj: "inj_on appt_id (set (appointments s))" and dx: "distinct (appointments s)"
    using ids by (simp_all add: distinct_map)
  have dS: "distinct (map appt_id ?S)"
    unfolding distinct_map using dx inj by (auto intro: inj_on_subset)
  have lenS: "length ?S = length ?ys" by simp
  have setS: "set ?S = set ?ys" by simp
  have G_at: "?G (?S ! j) = (?S ! j)\<lparr>queuePosition := int j + 1, updatedAt := now\<rparr>"
    if "j < length ?S" for j
    using renumbered_at [OF that dS, of "?S ! j" now 0] by simp
  have idx: "\<exists>j < length ?S. x = ?S ! j" if "x \<in> set ?ys" for x
    using that setS by (metis in_set_conv_nth)
  have len_q: "length ?q = length ?S" using q by simp
  have pos: "set (map queuePosition ?q) = {1 .. int (length ?q)}"
  proof (intro equalityI subsetI)
    fix n assume "n \<in> set (map queuePosition ?q)"
    then obtain x where x: "x \<in> set ?ys" "n = queuePosition (?G x)"
      unfolding q by auto
    then obtain j where j: "j < length ?S" "x = ?S ! j" using idx by blast
    then have "n = int j + 1" using x G_at by simp
    then show "n \<in> {1 .. int (length ?q)}" using j len_q by simp
  next
    fix n assume n: "n \<in> {1 .. int (length ?q)}"
    define j where "j = nat (n - 1)"
    have "1 \<le> n" "n \<le> int (length ?S)" using n len_q by simp_all
    then have j: "j < length ?S" "n = int j + 1" unfolding j_def by linarith+
    have "?S ! j \<in> set ?ys" using j(1) setS nth_mem by blast
    moreover have "queuePosition (?G (?S ! j)) = n" using G_at [OF j(1)] j(2) by simp
    ultimately show "n \<in> set (map queuePosition ?q)" unfolding q by force
  qed
  have "card (set (map queuePosition ?q)) = length (map queuePosition ?q)"
    unfolding pos by simp
  then have dist: "distinct (map queuePosition ?q)" by (rule card_distinct)
  have srt: "sorted (map createdAt ?S)" by (rule sorted_sort_key)
  have ord: "queuePosition a < queuePosition b"
    if a: "a \<in> set ?q" and b: "b \<in> set ?q" and lt: "createdAt a < createdAt b" for a b
  proof -
    obtain x where x: "x \<in> set ?ys" "a = ?G x" using a unfolding q by auto
    obtain y where y: "y \<in> set ?ys" "b = ?G y" using b unfolding q by auto
    obtain j where j: "j < length ?S" "x = ?S ! j" using idx x(1) by blast
    obtain l where l: "l < length ?S" "y = ?S ! l" using idx y(1) by blast
    have ca: "createdAt a = createdAt (?S ! j)" using x j by (simp add: renumbered_keeps)
    have cb: "createdAt b = createdAt (?S ! l)" using y l by (simp add: renumbered_keeps)
    have "j < l"
    proof (rule ccontr)
      assume "\<not> j < l"
      then have "l \<le> j" by simp
      then have "map createdAt ?S ! l \<le> map createdAt ?S ! j"
        using srt j(1) by (intro sorted_nth_mono) simp_all
      then show False using lt ca cb j(1) l(1) by simp
    qed
    moreover have "queuePosition a = int j + 1" using x j G_at by simp
    moreover have "queuePosition b = int l + 1" using y l G_at by simp
    ultimately show ?thesis by simp
  qed
  show ?thesis using dist pos ord by blast
qed

subsection \<open>The renumbering on the example store\<close>

lemmas eval_defs = updateQueuePositions_def findSortedByCreatedAt_def storeOp_def save_def
  dayQuery_def startOfDay_def endOfDay_def msPerDay_def queueDb_def apptA_def apptB_def
  apptC_def apptD_def monday_def activeOnDay_def localDay_def utc_def fixedZone_def onLocalDay_def

theorem updateQueuePositions_contiguous_witness:
  "set (map queuePosition (filter (activeOnDay utc 1 monday)
         (appointments (snd (updateQueuePositions utc 5000 1 monday queueDb))))) = {1 .. 2} \<and>
   queuePosition (appointments (snd (updateQueuePositions utc 5000 1 monday queueDb)) ! 0) <
   queuePosition (appointments (snd (updateQueuePositions utc 5000 1 monday queueDb)) ! 2)"
proof -
  let ?s' = "snd (updateQueuePositions utc 5000 1 monday queueDb)"
  let ?q = "filter (activeOnDay utc 1 monday) (appointments ?s')"
  have h1: "updateQueuePositions utc 5000 1 monday queueDb = (True, ?s')"
    by (simp add: eval_defs)
  have h2: "distinct (map appt_id (appointments queueDb))"
    by (simp add: eval_defs)
  note main = updateQueuePositions_contiguous [OF h1 h2]
  have q: "?q = [appointments ?s' ! 0, appointments ?s' ! 2]"
    by (simp add: eval_defs)
  have c: "createdAt (appointments ?s' ! 0) < createdAt (appointments ?s' ! 2)"
    by (simp add: eval_defs)
  have "appointments ?s' ! 0 \<in> set ?q" "appointments ?s' ! 2 \<in> set ?q"
    unfolding q by simp_all
  then have "queuePosition (appointments ?s' ! 0) < queuePosition (appointments ?s' ! 2)"
    using main c by blast
  moreover have "length ?q = 2" unfolding q by simp
  then have "set (map queuePosition ?q) = {1 .. 2}" using main by simp
  ultimately show ?thesis by simp
qed

theorem updateQueuePositions_touches_position_only_witness:
  "estimatedWaitTime (appointments (snd (updateQueuePositions utc 5000 1 monday queueDb)) ! 2) = 60 \<and>
   queuePosition (appointments (snd (updateQueuePositions utc 5000 1 monday queueDb)) ! 2) = 2 \<and>
   estimatedWaitTime (appointments (snd (updateQueuePositions utc 5000 1 monday queueDb)) ! 2) \<noteq>
     calculateEstimatedWaitTime
       (queuePosition (appointments (snd (updateQueuePositions utc 5000 1 monday queueDb)) ! 2))
       (Some 30)"
proof -
  have k: "2 < length (appointments queueDb)" by (simp add: queueDb_def)
  have old: "appointments queueDb ! 2 = apptC" by (simp add: queueDb_def)
  have q: "queuePosition (appointments (snd (updateQueuePositions utc 5000 1 monday queueDb)) ! 2) = 2"
    by (simp add: eval_defs)
  have c: "calculateEstimatedWaitTime 3 (Some 30) = 60" by (simp add: calculateEstimatedWaitTime_def)
  show ?thesis
    using updateQueuePositions_touches_position_only [OF k, of utc 5000 1 monday 30] old q c
    by (simp add: apptC_def)
qed

subsection \<open>The policy functions on the example store\<close>

lemmas count_defs = nextFails_def storeOp_def queueDb_def springDb_def springSunday_def
  apptA_def apptB_def apptC_def apptD_def localDay_def utc_def fixedZone_def
  easternSpring2026_def msPerDay_def monday_def

theorem calculateQueuePosition_counts_day_witness:
  "fst (calculateQueuePosition utc 1 monday ''10:30'' queueDb) = 3 \<and>
   fst (calculateQueuePosition utc 1 monday ''10:30'' (queueDb\<lparr>faults := [True]\<rparr>)) = 1 \<and>
   fst (calculateQueuePosition easternSpring2026 1 springSunday ''10:30'' springDb) = 2"
proof -
  note window = calculateQueuePosition_counts_day [THEN conjunct1]
  note calendar = calculateQueuePosition_counts_day [THEN conjunct2, rule_format]
  have u: "midnightStartsDay utc \<and> lastMillisecondEndsDay utc"
    unfolding utc_def
    using midnightStartsDay_fixedZone lastMillisecondEndsDay_fixedZone by simp
  have e: "midnightStartsDay easternSpring2026 \<and> lastMillisecondEndsDay easternSpring2026"
    using midnightStartsDay_easternSpring2026 lastMillisecondEndsDay_easternSpring2026 by simp
  have "fst (calculateQueuePosition utc 1 monday ''10:30'' queueDb) = 3"
    using calendar [OF u, of 1 monday "''10:30''" queueDb] by (simp add: count_defs)
  moreover have
    "fst (calculateQueuePosition utc 1 monday ''10:30'' (queueDb\<lparr>faults := [True]\<rparr>)) = 1"
    using window [of utc 1 monday "''10:30''" "queueDb\<lparr>faults := [True]\<rparr>"]
    by (simp add: count_defs)
  moreover have
    "fst (calculateQueuePosition easternSpring2026 1 springSunday ''10:30'' springDb) = 2"
    using window [of easternSpring2026 1 springSunday "''10:30''" springDb]
      calendar [OF e, of 1 springSunday "''10:30''" springDb]
    by (simp add: count_defs)
  ultimately show ?thesis by simp
qed

text \<open>
  On the Sunday of 23 hours, a zone of either fixed offset counts an appointment that is not
  of that day: the one after midnight at five hours behind UTC, and, at four hours, one of
  the Saturday evening.
\<close>

lemma fixed_offsets_miscount:
  "fst (calculateQueuePosition (fixedZone (- 18000000)) 1 springSunday ''10:30'' springDb) = 3 \<and>
   fst (calculateQueuePosition (fixedZone (- 14400000)) 1 springSunday ''10:30''
     (springDb\<lparr>appointments := [apptA\<lparr>appointmentDate := 1772944200000\<rparr>]\<rparr>)) = 2 \<and>
   fst (calculateQueuePosition easternSpring2026 1 springSunday ''10:30''
     (springDb\<lparr>appointments := [apptA\<lparr>appointmentDate := 1772944200000\<rparr>]\<rparr>)) = 1"
  by (simp add: calculateQueuePosition_def countDocuments_def dayQuery_def startOfDay_def
      endOfDay_def count_defs)

lemmas slot_defs = nextFails_def storeOp_def queueDb_def apptA_def apptB_def apptC_def
  apptD_def activeOnDay_def onLocalDay_def localDay_def utc_def fixedZone_def msPerDay_def
  monday_def trim_def isWhiteSpace_def

theorem isSlotAvailable_iff_witness:
  "fst (isSlotAvailable utc 1 monday ''09:00'' ''Dr. A'' queueDb) = False \<and>
   fst (isSlotAvailable utc 1 monday ''09:00'' '' Dr. A  '' queueDb) = False \<and>
   fst (isSlotAvailable utc 1 monday ''09:01'' ''Dr. A'' queueDb) = True \<and>
   fst (isSlotAvailable utc 1 monday ''09:00'' ''Dr. B'' queueDb) = True \<and>
   fst (isSlotAvailable utc 1 monday ''09:01'' ''Dr. A'' (queueDb\<lparr>faults := [True]\<rparr>)) = False"
  using isSlotAvailable_iff [of utc 1 monday "''09:00''" "''Dr. A''" queueDb]
    isSlotAvailable_iff [of utc 1 monday "''09:00''" "'' Dr. A  ''" queueDb]
    isSlotAvailable_iff [of utc 1 monday "''09:01''" "''Dr. A''" queueDb]
    isSlotAvailable_iff [of utc 1 monday "''09:00''" "''Dr. B''" queueDb]
    isSlotAvailable_iff [of utc 1 monday "''09:01''" "''Dr. A''" "queueDb\<lparr>faults := [True]\<rparr>"]
  by (simp add: slot_defs)

text \<open>
  As claim C5 is stated it fails: the expert name need not be exactly equal. The slot of
  Dr. A at 09:00 is taken for the name written with a blank at its end, which no stored
  appointment has as its expert name, and the query does not fail.
\<close>

theorem isSlotAvailable_trailing_blank:
  "fst (isSlotAvailable utc 1 monday ''09:00'' ''Dr. A '' queueDb) = False \<and>
   \<not> nextFails queueDb \<and>
   list_all (\<lambda>a. expertName a \<noteq> ''Dr. A '') (appointments queueDb)"
  by (simp add: isSlotAvailable_def findOne_def dayQuery_def startOfDay_def endOfDay_def
      slot_defs)


text \<open>
  Other weekdays, a day with two entries, the weekday of an instant in two zones, and
  times as a request may carry them, with blanks, a sign, a fraction, an exponent or a
  hexadecimal hour.
\<close>

lemmas hours_defs = isWithinWorkingHours_def getDay_def localDay_def dayNames_def msPerDay_def
  utc_def fixedZone_def easternSpring2026_def weekHours_def clinic_def mondayMorning_def
  timeToMinutes_def number_defs

lemma working_hours_thursday:
  "isWithinWorkingHours utc weekHours 0 ''08:00'' = True \<and>
   isWithinWorkingHours utc weekHours 0 ''12:01'' = False \<and>
   isWithinWorkingHours utc weekHours 86400000 ''08:00'' = False"
  by (simp add: hours_defs)

lemma working_hours_second_entry:
  "isWithinWorkingHours utc weekHours 259200000 ''12:00'' = True \<and>
   isWithinWorkingHours utc weekHours 259200000 ''09:00'' = False"
  by (simp add: hours_defs)

lemma working_hours_zone:
  "isWithinWorkingHours easternSpring2026 weekHours 1772944200000 ''23:30'' = True \<and>
   isWithinWorkingHours utc weekHours 1772944200000 ''23:30'' = False \<and>
   isWithinWorkingHours utc weekHours 1772944200000 ''10:00'' = True"
  by (simp add: hours_defs)

lemma working_hours_raw_times:
  "isWithinWorkingHours utc (workingHours clinic) mondayMorning '' 9:30'' = True \<and>
   isWithinWorkingHours utc (workingHours clinic) mondayMorning ''+10:30'' = True \<and>
   isWithinWorkingHours utc (workingHours clinic) mondayMorning ''10.5:00'' = True \<and>
   isWithinWorkingHours utc (workingHours clinic) mondayMorning ''1e1:00'' = True \<and>
   isWithinWorkingHours utc (workingHours clinic) mondayMorning ''0x0A:00'' = True \<and>
   isWithinWorkingHours utc (workingHours clinic) mondayMorning ''10'' = False \<and>
   isWithinWorkingHours utc (workingHours clinic) mondayMorning ''ten:00'' = False \<and>
   isWithinWorkingHours utc (workingHours clinic) mondayMorning ''-Infinity:00'' = False"
  by (simp add: hours_defs)

section \<open>Properties of the controller\<close>

lemma storeOp_split: "storeOp s = (nextFails s, snd (storeOp s))"
  by (simp add: nextFails_def)

lemma findOne_eq:
  "findOne q s =
     (if nextFails s then Inl StoreError else Inr (find q (appointments s)), snd (storeOp s))"
  unfolding findOne_def by (subst storeOp_split) simp

lemma findOrganizationById_eq:
  "findOrganizationById i s =
     (if nextFails s then Inl StoreError
      else Inr (find (\<lambda>org. org_id org = i) (organizations s)), snd (storeOp s))"
  unfolding findOrganizationById_def by (subst storeOp_split) simp

lemma populate_eq:
  "populate s = (if nextFails s then Inl StoreError else Inr (), snd (storeOp s))"
  unfolding populate_def by (subst storeOp_split) simp

subsection \<open>Booking in the past\<close>



subsection \<open>Cancelling a finished appointment\<close>



subsection \<open>The status of a finished appointment\<close>

lemma save_eq:
  "save now i g s =
     (if nextFails s then (Inl StoreError, snd (storeOp s))
      else (Inr (), (snd (storeOp s))\<lparr>appointments :=
              updateOne (\<lambda>a. appt_id a = i) (\<lambda>a. (g a)\<lparr>updatedAt := now\<rparr>)
                (appointments s)\<rparr>))"
  unfolding save_def by (subst storeOp_split) simp

lemma find_updateOne_other:
  assumes "i \<noteq> aid" and "\<And>x. appt_id (f x) = appt_id x"
  shows "find (\<lambda>a. appt_id a = aid) (updateOne (\<lambda>a. appt_id a = i) f xs) =
         find (\<lambda>a. appt_id a = aid) xs"
  using assms by (induction xs) auto

lemma find_updateOne_same:
  assumes "\<And>x. appt_id (f x) = appt_id x"
  shows "find (\<lambda>a. appt_id a = aid) (updateOne (\<lambda>a. appt_id a = aid) f xs) =
         map_option f (find (\<lambda>a. appt_id a = aid) xs)"
  using assms by (induction xs) auto

lemma statusOf_storeOp [simp]: "statusOf aid (snd (storeOp s)) = statusOf aid s"
  by (simp add: statusOf_def)

lemma statusOf_save_other:
  assumes "i \<noteq> aid" and "\<And>x. appt_id (g x) = appt_id x"
  shows "statusOf aid (snd (save now i g s)) = statusOf aid s"
  using assms by (simp add: save_eq statusOf_def find_updateOne_other)

lemma statusOf_save_position:
  "statusOf aid (snd (save now i (\<lambda>x. x\<lparr>queuePosition := q\<rparr>) s)) = statusOf aid s"
proof (cases "i = aid")
  case True
  then show ?thesis
    by (simp add: save_eq statusOf_def find_updateOne_same option.map_comp comp_def)
next
  case False
  then show ?thesis by (simp add: statusOf_save_other)
qed

lemma statusOf_renumberFrom:
  "statusOf aid (snd (renumberFrom now i as s)) = statusOf aid s"
proof (induction as arbitrary: i s)
  case Nil
  then show ?case by simp
next
  case (Cons a as)
  obtain r1 s1 where sv: "save now (appt_id a) (\<lambda>x. x\<lparr>queuePosition := i + 1\<rparr>) s = (r1, s1)"
    by (cases "save now (appt_id a) (\<lambda>x. x\<lparr>queuePosition := i + 1\<rparr>) s")
  have s1: "statusOf aid s1 = statusOf aid s"
    using statusOf_save_position [of aid now "appt_id a" "i + 1" s] sv by simp
  show ?case
  proof (cases r1)
    case (Inl e)
    then show ?thesis using sv s1 by simp
  next
    case (Inr u)
    then show ?thesis using sv s1 Cons.IH [of "i + 1" s1] by simp
  qed
qed

lemma statusOf_updateQueuePositions [simp]:
  "statusOf aid (snd (updateQueuePositions z now oid d s)) = statusOf aid s"
proof -
  obtain r s1 where f: "findSortedByCreatedAt (dayQuery z oid d) s = (r, s1)"
    by (cases "findSortedByCreatedAt (dayQuery z oid d) s")
  have s1: "statusOf aid s1 = statusOf aid s"
    using findSorted_result [OF f] by (simp add: statusOf_def)
  show ?thesis
  proof (cases r)
    case (Inl e)
    then show ?thesis using f s1 by (simp add: updateQueuePositions_def)
  next
    case (Inr found)
    obtain r2 s2 where l: "renumberFrom now 0 found s1 = (r2, s2)"
      by (cases "renumberFrom now 0 found s1")
    have "statusOf aid s2 = statusOf aid s"
      using statusOf_renumberFrom [of aid now 0 found s1] l s1 by simp
    moreover have "snd (updateQueuePositions z now oid d s) = s2"
      using f l Inr by (simp add: updateQueuePositions_def split: sum.splits)
    ultimately show ?thesis by simp
  qed
qed

lemma statusOf_populate [simp]: "statusOf aid (snd (populate s)) = statusOf aid s"
  by (simp add: populate_eq)

lemma statusOf_isSlotAvailable [simp]:
  "statusOf aid (snd (isSlotAvailable z oid d t en s)) = statusOf aid s"
  by (simp add: isSlotAvailable_def findOne_eq)

lemma countDocuments_eq:
  "countDocuments q s =
     (if nextFails s then Inl StoreError else Inr (length (filter q (appointments s))),
      snd (storeOp s))"
  unfolding countDocuments_def by (subst storeOp_split) simp

lemma statusOf_calculateQueuePosition [simp]:
  "statusOf aid (snd (calculateQueuePosition z oid d t s)) = statusOf aid s"
  by (simp add: calculateQueuePosition_def countDocuments_eq)

lemma find_append_Some: "find P xs = Some x \<Longrightarrow> find P (xs @ ys) = Some x"
  by (induction xs) (auto split: if_splits)

lemma createAppointment_eq:
  "createAppointment doc s =
     (if expertName (applySetters doc) = [] \<or> serviceName (applySetters doc) = [] \<or>
         \<not> timeFormatOk (appointmentTime (applySetters doc))
      then (Inl ValidationError, s)
      else if nextFails s then (Inl StoreError, snd (storeOp s))
      else (Inr ((applySetters doc)\<lparr>appt_id := freshId (appointments s)\<rparr>),
            (snd (storeOp s))\<lparr>appointments :=
               appointments s @ [(applySetters doc)\<lparr>appt_id := freshId (appointments s)\<rparr>]\<rparr>))"
  unfolding createAppointment_def by (subst storeOp_split) (simp add: Let_def)

lemma statusOf_createAppointment:
  "statusOf aid s = Some st \<Longrightarrow> statusOf aid (snd (createAppointment doc s)) = Some st"
  by (auto simp add: createAppointment_eq statusOf_def find_append_Some)

lemma statusOf_bookWithFields:
  assumes "statusOf aid s = Some st"
  shows "statusOf aid (snd (bookWithFields z now uid oid en sn d t nt s)) = Some st"
proof -
  let ?s1 = "snd (storeOp s)"
  have s1: "statusOf aid ?s1 = Some st" using assms by simp
  let ?s2 = "snd (isSlotAvailable z oid d t en ?s1)"
  have s2: "statusOf aid ?s2 = Some st" using s1 by simp
  let ?c = "calculateQueuePosition z oid d t ?s2"
  have s3: "statusOf aid (snd ?c) = Some st" using s2 by simp
  have s4: "statusOf aid (snd (createAppointment doc (snd ?c))) = Some st" for doc
    using s3 by (rule statusOf_createAppointment)
  have s5: "statusOf aid (snd (populate (snd (createAppointment doc (snd ?c))))) = Some st" for doc
    using s4 by simp
  have s6: "statusOf aid (snd (populate (snd (populate (snd (createAppointment doc (snd ?c))))))) = Some st" for doc
    using s5 by simp
  show ?thesis
    unfolding bookWithFields_def findOrganizationById_eq
    using s1 s2 s3 s4 s5 s6
    by (simp add: split_beta Let_def split: option.splits sum.splits bool.splits)
qed


lemma statusOf_bookAppointment:
  assumes "statusOf aid s = Some st"
  shows "statusOf aid (snd (bookAppointment z now uid req s)) = Some st"
  using assms statusOf_bookWithFields [OF assms]
  by (simp add: bookAppointment_def split: option.splits)

lemma statusOf_cancelAppointment:
  assumes "statusOf aid s = Some st" and "st = Completed \<or> st = Cancelled"
  shows "statusOf aid (snd (cancelAppointment z now uid i s)) = Some st"
proof (cases "nextFails s")
  case True
  then show ?thesis using assms(1)
    by (simp add: cancelAppointment_def findAppointmentById_def findOne_eq)
next
  case False
  show ?thesis
  proof (cases "find (\<lambda>a. appt_id a = i) (appointments s)")
    case None
    then show ?thesis using False assms(1)
      by (simp add: cancelAppointment_def findAppointmentById_def findOne_eq)
  next
    case (Some a)
    show ?thesis
    proof (cases "userId a \<noteq> uid \<or> status a = Completed \<or> status a = Cancelled")
      case True
      then show ?thesis using False Some assms(1)
        by (auto simp add: cancelAppointment_def findAppointmentById_def findOne_eq)
    next
      case open_appt: False
      then have "statusOf i s \<noteq> Some st" using Some assms(2) by (auto simp add: statusOf_def)
      then have ne: "i \<noteq> aid" using assms(1) by auto
      have "statusOf aid (snd (save now i (\<lambda>x. x\<lparr>status := Cancelled\<rparr>) (snd (storeOp s)))) =
            Some st"
        using statusOf_save_other [OF ne, of "\<lambda>x. x\<lparr>status := Cancelled\<rparr>" now "snd (storeOp s)"]
          assms(1) by simp
      then show ?thesis using False Some open_appt
        by (simp add: cancelAppointment_def findAppointmentById_def findOne_eq split_beta
            split: sum.splits)
    qed
  qed
qed

lemma statusOf_updateAppointmentStatus_other:
  assumes "i \<noteq> aid"
  shows "statusOf aid (snd (updateAppointmentStatus z now uid i statusArg s)) = statusOf aid s"
proof -
  let ?s2 = "snd (storeOp (snd (storeOp s)))"
  have sv: "statusOf aid (snd (save now i (\<lambda>x. x\<lparr>status := st\<rparr>) ?s2)) = statusOf aid s" for st
    using statusOf_save_other [OF assms, of "\<lambda>x. x\<lparr>status := st\<rparr>" now ?s2] by simp
  show ?thesis
    using sv
    by (simp add: updateAppointmentStatus_def findAppointmentById_def findOne_eq
        findOrganizationById_eq split_beta Let_def
        split: option.splits sum.splits)
qed

lemma ownerOfAppointment_storeOp [simp]:
  "ownerOfAppointment aid (snd (storeOp s)) = ownerOfAppointment aid s"
  by (cases "faults s") (simp_all add: ownerOfAppointment_def storeOp_def split: option.splits)

text \<open>
  A call of \<open>updateAppointmentStatus\<close> that carries no status, or a string that is none of
  the four values, or is made by another user than the owner of the organization, leaves
  the status as it is.
\<close>

lemma statusOf_updateAppointmentStatus_refused:
  assumes "\<not> ((case statusArg of None \<Rightarrow> False | Some str \<Rightarrow> parseStatus str \<noteq> None) \<and>
              ownerOfAppointment aid s = Some uid)"
  shows "statusOf aid (snd (updateAppointmentStatus z now uid aid statusArg s)) = statusOf aid s"
proof (cases statusArg)
  case None
  then show ?thesis by (simp add: updateAppointmentStatus_def)
next
  case (Some str)
  show ?thesis
  proof (cases "parseStatus str")
    case None
    then show ?thesis
      using Some
      by (simp add: updateAppointmentStatus_def findAppointmentById_def findOne_eq
          findOrganizationById_eq split_beta split: option.splits)
  next
    case (Some st)
    then have "ownerOfAppointment aid s \<noteq> Some uid" using assms \<open>statusArg = Some str\<close> by simp
    then show ?thesis
      using \<open>statusArg = Some str\<close>
      by (auto simp add: updateAppointmentStatus_def findAppointmentById_def findOne_eq
          findOrganizationById_eq split_beta ownerOfAppointment_def split: option.splits)
  qed
qed

lemma statusOf_save_status:
  assumes "statusOf aid s = Some x"
  shows "statusOf aid (snd (save now aid (\<lambda>a. a\<lparr>status := st\<rparr>) s)) =
         (if nextFails s then Some x else Some st)"
  using assms
  by (auto simp add: save_eq statusOf_def find_updateOne_same)

text \<open>
  The call of the owner with one of the four values: the status becomes that value when
  the two lookups and the save succeed, and stays when one of them fails.
\<close>

lemma statusOf_updateAppointmentStatus_owner:
  assumes "ownerOfAppointment aid s = Some uid" and "parseStatus str = Some st"
  shows "statusOf aid (snd (updateAppointmentStatus z now uid aid (Some str) s)) =
         (if nextFails s \<or> nextFails (snd (storeOp s)) \<or>
             nextFails (snd (storeOp (snd (storeOp s))))
          then statusOf aid s else Some st)"
proof -
  obtain a where a: "find (\<lambda>a. appt_id a = aid) (appointments s) = Some a"
    using assms(1) by (auto simp add: ownerOfAppointment_def split: option.splits)
  then obtain org where org: "find (\<lambda>org. org_id org = organizationId a) (organizations s) = Some org"
      "org_userId org = uid"
    using assms(1) by (auto simp add: ownerOfAppointment_def split: option.splits)
  have ne: "str \<noteq> []" using assms(2) by (auto simp add: parseStatus_def)
  let ?s2 = "snd (storeOp (snd (storeOp s)))"
  have st: "statusOf aid ?s2 = Some (status a)" using a by (simp add: statusOf_def)
  have sv: "statusOf aid (snd (save now aid (\<lambda>x. x\<lparr>status := st\<rparr>) ?s2)) =
      (if nextFails ?s2 then Some (status a) else Some st)"
    using statusOf_save_status [OF st] .
  have s0: "statusOf aid s = Some (status a)" using a by (simp add: statusOf_def)
  have "statusOf aid (snd (updateAppointmentStatus z now uid aid (Some str) s)) =
      (if nextFails s \<or> nextFails (snd (storeOp s)) then statusOf aid s
       else statusOf aid (snd (save now aid (\<lambda>x. x\<lparr>status := st\<rparr>) ?s2)))"
    using a org ne assms(2)
    by (simp add: updateAppointmentStatus_def findAppointmentById_def findOne_eq
        findOrganizationById_eq split_beta Let_def split: sum.splits)
  then show ?thesis using sv s0 by simp
qed

lemma statusOf_handle:
  assumes "statusOf aid s = Some st" and "st = Completed \<or> st = Cancelled"
      and "\<not> ownerSetsStatus aid r s"
  shows "statusOf aid (snd (handle z now r s)) = Some st"
proof (cases r)
  case (BookAppointment uid req)
  then show ?thesis using statusOf_bookAppointment [OF assms(1)] by simp
next
  case (UpdateAppointmentStatus uid i statusArg)
  show ?thesis
  proof (cases "i = aid")
    case True
    then show ?thesis
      using UpdateAppointmentStatus assms(1,3)
      by (simp add: statusOf_updateAppointmentStatus_refused)
  next
    case False
    then show ?thesis
      using UpdateAppointmentStatus assms(1)
      by (simp add: statusOf_updateAppointmentStatus_other)
  qed
next
  case (CancelAppointment uid i)
  then show ?thesis using statusOf_cancelAppointment [OF assms(1,2)] by simp
qed

lemma statusOf_run:
  assumes "statusOf aid s = Some st" and "st = Completed \<or> st = Cancelled"
      and "noOwnerUpdate z aid calls s"
  shows "statusOf aid (run z calls s) = Some st"
  using assms
proof (induction calls arbitrary: s)
  case Nil
  then show ?case by simp
next
  case (Cons c calls)
  obtain now r where c: "c = (now, r)" by (cases c)
  have "statusOf aid (snd (handle z now r s)) = Some st"
    using statusOf_handle [OF Cons.prems(1,2)] Cons.prems(3) c by simp
  then show ?case using Cons.IH [OF _ Cons.prems(2)] Cons.prems(3) c by simp
qed

text \<open>
  Claim C2, amended. An appointment that is completed or cancelled keeps its status under
  every run of \<open>bookAppointment\<close>, \<open>cancelAppointment\<close> and \<open>updateAppointmentStatus\<close> calls
  in which no \<open>updateAppointmentStatus\<close> call names the appointment, carries one of the four
  status values and is made by the owner of the appointment's organization. Such a call
  sets the status of the appointment, whatever it was, to the value it carries when its
  two lookups and its save succeed, and leaves it as it was when one of them fails.
\<close>

theorem finished_status_absorbing:
  "(statusOf aid s = Some st \<and> (st = Completed \<or> st = Cancelled) \<and>
    noOwnerUpdate z aid calls s \<longrightarrow>
      statusOf aid (run z calls s) = Some st) \<and>
   (ownerOfAppointment aid s = Some uid \<and> parseStatus str = Some st' \<longrightarrow>
      statusOf aid (snd (updateAppointmentStatus z now uid aid (Some str) s)) =
        (if nextFails s \<or> nextFails (snd (storeOp s)) \<or>
            nextFails (snd (storeOp (snd (storeOp s))))
         then statusOf aid s else Some st'))"
  using statusOf_run statusOf_updateAppointmentStatus_owner by blast

text \<open>
  As claim C2 is stated it fails: \<open>updateAppointmentStatus\<close> writes the status it is given.
  The owner of the clinic sets the cancelled appointment B back to pending.
\<close>

theorem finished_status_reopened:
  "statusOf 2 queueDb = Some Cancelled \<and>
   statusOf 2 (run utc [(5000, UpdateAppointmentStatus 7 2 (Some ''pending''))] queueDb) =
     Some Pending"
  by (simp add: statusOf_def updateAppointmentStatus_def findAppointmentById_def findOne_eq
      findOrganizationById_eq save_eq populate_eq nextFails_def storeOp_def parseStatus_def
      queueDb_def apptA_def apptB_def apptC_def apptD_def clinic_def)

subsection \<open>Distinct ids\<close>

text \<open>
  The store never holds two appointments with the same \<^verbatim>\<open>_id\<close>: a store that has this
  property keeps it under every run of the handlers.
\<close>

lemma ids_updateOne:
  assumes "\<And>x. appt_id (f x) = appt_id x"
  shows "map appt_id (updateOne p f xs) = map appt_id xs"
  using assms by (induction xs) auto

lemma ids_storeOp [simp]:
  "map appt_id (appointments (snd (storeOp s))) = map appt_id (appointments s)"
  by simp

lemma ids_save:
  assumes "\<And>x. appt_id (g x) = appt_id x"
  shows "map appt_id (appointments (snd (save now i g s))) = map appt_id (appointments s)"
  using assms by (simp add: save_eq ids_updateOne)

lemma ids_renumberFrom:
  "map appt_id (appointments (snd (renumberFrom now i as s))) = map appt_id (appointments s)"
proof (induction as arbitrary: i s)
  case Nil
  then show ?case by simp
next
  case (Cons a as)
  obtain r1 s1 where sv: "save now (appt_id a) (\<lambda>x. x\<lparr>queuePosition := i + 1\<rparr>) s = (r1, s1)"
    by (cases "save now (appt_id a) (\<lambda>x. x\<lparr>queuePosition := i + 1\<rparr>) s")
  have s1: "map appt_id (appointments s1) = map appt_id (appointments s)"
    using ids_save [of "\<lambda>x. x\<lparr>queuePosition := i + 1\<rparr>" now "appt_id a" s] sv by simp
  show ?case
  proof (cases r1)
    case (Inl e)
    then show ?thesis using sv s1 by simp
  next
    case (Inr u)
    then show ?thesis using sv s1 Cons.IH [of "i + 1" s1] by simp
  qed
qed

lemma ids_updateQueuePositions [simp]:
  "map appt_id (appointments (snd (updateQueuePositions z now oid d s))) =
   map appt_id (appointments s)"
proof -
  obtain r s1 where f: "findSortedByCreatedAt (dayQuery z oid d) s = (r, s1)"
    by (cases "findSortedByCreatedAt (dayQuery z oid d) s")
  have s1: "appointments s1 = appointments s"
    using findSorted_result [OF f] by simp
  show ?thesis
  proof (cases r)
    case (Inl e)
    then show ?thesis using f s1 by (simp add: updateQueuePositions_def)
  next
    case (Inr found)
    obtain r2 s2 where l: "renumberFrom now 0 found s1 = (r2, s2)"
      by (cases "renumberFrom now 0 found s1")
    have "map appt_id (appointments s2) = map appt_id (appointments s)"
      using ids_renumberFrom [of now 0 found s1] l s1 by simp
    moreover have "snd (updateQueuePositions z now oid d s) = s2"
      using f l Inr by (simp add: updateQueuePositions_def split: sum.splits)
    ultimately show ?thesis by simp
  qed
qed

lemma le_foldr_max: "x \<in> set ns \<Longrightarrow> x \<le> foldr max ns (0::nat)"
  by (induction ns) auto

lemma freshId_fresh: "freshId xs \<notin> appt_id ` set xs"
proof
  assume "freshId xs \<in> appt_id ` set xs"
  then have "freshId xs \<in> set (map appt_id xs)" by simp
  then have "freshId xs \<le> foldr max (map appt_id xs) 0" by (rule le_foldr_max)
  then show False by (simp add: freshId_def)
qed

lemma distinct_createAppointment:
  assumes "distinct (map appt_id (appointments s))"
  shows "distinct (map appt_id (appointments (snd (createAppointment doc s))))"
  using assms freshId_fresh [of "appointments s"] by (simp add: createAppointment_eq)

lemma ids_populate [simp]:
  "appointments (snd (populate s)) = appointments s"
  by (simp add: populate_eq)

lemma ids_isSlotAvailable [simp]:
  "appointments (snd (isSlotAvailable z oid d t en s)) = appointments s"
  by (simp add: isSlotAvailable_def findOne_eq)

lemma ids_calculateQueuePosition [simp]:
  "appointments (snd (calculateQueuePosition z oid d t s)) = appointments s"
  by (simp add: calculateQueuePosition_def countDocuments_eq)

lemma distinct_bookAppointment:
  assumes "distinct (map appt_id (appointments s))"
  shows "distinct (map appt_id (appointments (snd (bookAppointment z now uid req s))))"
proof -
  let ?s3 = "\<lambda>oid d t en. snd (calculateQueuePosition z oid d t
      (snd (isSlotAvailable z oid d t en (snd (storeOp s)))))"
  have s3: "distinct (map appt_id (appointments (?s3 oid d t en)))" for oid d t en
    using assms by simp
  have s4: "distinct (map appt_id (appointments (snd (createAppointment doc (?s3 oid d t en)))))"
    for doc oid d t en
    using s3 by (rule distinct_createAppointment)
  show ?thesis
    using assms s4
    by (simp add: bookAppointment_def bookWithFields_def findOrganizationById_eq split_beta Let_def
        split: option.splits sum.splits bool.splits)
qed

lemma distinct_cancelAppointment:
  assumes "distinct (map appt_id (appointments s))"
  shows "distinct (map appt_id (appointments (snd (cancelAppointment z now uid i s))))"
proof -
  have "map appt_id (appointments (snd (save now i (\<lambda>x. x\<lparr>status := Cancelled\<rparr>)
          (snd (storeOp s))))) = map appt_id (appointments s)"
    using ids_save [of "\<lambda>x. x\<lparr>status := Cancelled\<rparr>" now i "snd (storeOp s)"] by simp
  then show ?thesis
    using assms
    by (simp add: cancelAppointment_def findAppointmentById_def findOne_eq split_beta
        split: option.splits sum.splits)
qed

lemma distinct_updateAppointmentStatus:
  assumes "distinct (map appt_id (appointments s))"
  shows "distinct (map appt_id
           (appointments (snd (updateAppointmentStatus z now uid i statusArg s))))"
proof -
  have "map appt_id (appointments (snd (save now i (\<lambda>x. x\<lparr>status := st\<rparr>)
          (snd (storeOp (snd (storeOp s))))))) = map appt_id (appointments s)" for st
    using ids_save [of "\<lambda>x. x\<lparr>status := st\<rparr>" now i "snd (storeOp (snd (storeOp s)))"]
    by simp
  then show ?thesis
    using assms
    by (simp add: updateAppointmentStatus_def findAppointmentById_def findOne_eq
        findOrganizationById_eq split_beta Let_def
        split: option.splits sum.splits)
qed

lemma distinct_ids_run:
  assumes "distinct (map appt_id (appointments s))"
  shows "distinct (map appt_id (appointments (run z calls s)))"
  using assms
proof (induction calls arbitrary: s)
  case Nil
  then show ?case by simp
next
  case (Cons c calls)
  obtain now r where c: "c = (now, r)" by (cases c)
  have "distinct (map appt_id (appointments (snd (handle z now r s))))"
    using Cons.prems distinct_bookAppointment distinct_cancelAppointment
      distinct_updateAppointmentStatus by (cases r) simp_all
  then show ?case using Cons.IH c by simp
qed

subsection \<open>The controller on the example store\<close>




lemmas run_defs = handle.simps bookAppointment_def bookWithFields_def cancelAppointment_def
  updateAppointmentStatus_def updateQueuePositions_def findAppointmentById_def findOne_def
  findOrganizationById_def findSortedByCreatedAt_def isSlotAvailable_def
  calculateQueuePosition_def countDocuments_def calculateEstimatedWaitTime_def
  createAppointment_def applySetters_def freshId_def save_def populate_def storeOp_def
  parseStatus_def falsy_def dayQuery_def startOfDay_def endOfDay_def localDay_def msPerDay_def
  isWithinWorkingHours_def getDay_def dayNames_def timeToMinutes_def number_defs
  isDigitUpTo_def ownerOfAppointment_def utc_def fixedZone_def queueDb_def apptA_def
  apptB_def apptC_def apptD_def clinic_def pastRequest_def exampleCalls_def

theorem finished_status_absorbing_witness:
  "statusOf 2 (run utc exampleCalls queueDb) = Some Cancelled \<and>
   statusOf 4 (run utc exampleCalls queueDb) = Some Completed \<and>
   statusOf 2 (snd (updateAppointmentStatus utc 5000 7 2 (Some ''pending'') queueDb)) =
     Some Pending \<and>
   statusOf 2 (snd (updateAppointmentStatus utc 5000 7 2 (Some ''pending'')
     (queueDb\<lparr>faults := [False, False, True]\<rparr>))) = Some Cancelled"
proof -
  note kept = finished_status_absorbing [THEN conjunct1, rule_format]
  note owner = finished_status_absorbing [THEN conjunct2, rule_format]
  have b: "statusOf 2 queueDb = Some Cancelled"
    by (simp add: statusOf_def queueDb_def apptA_def apptB_def)
  have d: "statusOf 4 queueDb = Some Completed"
    by (simp add: statusOf_def queueDb_def apptA_def apptB_def apptC_def apptD_def)
  have c2: "noOwnerUpdate utc 2 exampleCalls queueDb"
    by (simp add: run_defs)
  have c4: "noOwnerUpdate utc 4 exampleCalls queueDb"
    by (simp add: run_defs)
  have o: "ownerOfAppointment 2 queueDb = Some 7"
    "ownerOfAppointment 2 (queueDb\<lparr>faults := [False, False, True]\<rparr>) = Some 7"
    by (simp_all add: ownerOfAppointment_def queueDb_def apptA_def apptB_def clinic_def)
  have p: "parseStatus ''pending'' = Some Pending" by (simp add: parseStatus_def)
  have "statusOf 2 (run utc exampleCalls queueDb) = Some Cancelled"
    using kept [of 2 queueDb Cancelled utc exampleCalls] b c2 by simp
  moreover have "statusOf 4 (run utc exampleCalls queueDb) = Some Completed"
    using kept [of 4 queueDb Completed utc exampleCalls] d c4 by simp
  moreover have
    "statusOf 2 (snd (updateAppointmentStatus utc 5000 7 2 (Some ''pending'') queueDb)) =
       Some Pending"
    using owner [of 2 queueDb 7 "''pending''" Pending utc 5000] o(1) p
    by (simp add: nextFails_def storeOp_def queueDb_def)
  moreover have
    "statusOf 2 (snd (updateAppointmentStatus utc 5000 7 2 (Some ''pending'')
       (queueDb\<lparr>faults := [False, False, True]\<rparr>))) = Some Cancelled"
    using owner [of 2 "queueDb\<lparr>faults := [False, False, True]\<rparr>" 7 "''pending''" Pending utc 5000]
      o(2) p b
    by (simp add: nextFails_def storeOp_def queueDb_def statusOf_def)
  ultimately show ?thesis by simp
qed

section \<open>The scenarios of the specification\<close>

text \<open>
  The model run on the two scenarios that the specification gives. At the clinic, the first
  booking for Monday 09:00 succeeds with position 1 and no wait, a second booking of the
  same slot is refused as taken, and a booking for 08:59 is refused. With A, B and C
  pending at positions 1, 2 and 3, cancelling B leaves A at 1 and moves C to 2.
\<close>

lemmas booking_defs = bookAppointment_def bookWithFields_def findOrganizationById_def
  isSlotAvailable_def findOne_def calculateQueuePosition_def countDocuments_def
  createAppointment_def applySetters_def populate_def storeOp_def dayQuery_def startOfDay_def endOfDay_def
  msPerDay_def falsy_def isWithinWorkingHours_def getDay_def localDay_def utc_def fixedZone_def onLocalDay_def dayNames_def
  timeToMinutes_def number_defs isDigitUpTo_def
  calculateEstimatedWaitTime_def freshId_def emptyDb_def mondayRequest_def clinic_def Let_def

lemma scenario_first_booking:
  "fst (bookAppointment utc 259200000 11 (mondayRequest ''09:00'') emptyDb) =
     respond 201 True ''Appointment booked successfully'' \<and>
   map (\<lambda>a. (status a, queuePosition a, estimatedWaitTime a))
     (appointments (snd (bookAppointment utc 259200000 11 (mondayRequest ''09:00'') emptyDb))) =
     [(Pending, 1, 0)]"
  by (simp add: booking_defs)

lemma scenario_second_booking:
  "fst (bookAppointment utc 259200000 12 (mondayRequest ''09:00'')
         (snd (bookAppointment utc 259200000 11 (mondayRequest ''09:00'') emptyDb))) =
     respond 400 False ''Slot is already taken''"
  by (simp add: booking_defs)

lemma scenario_before_opening:
  "statusCode (fst (bookAppointment utc 259200000 11 (mondayRequest ''08:59'') emptyDb)) = 400 \<and>
   appointments (snd (bookAppointment utc 259200000 11 (mondayRequest ''08:59'') emptyDb)) = []"
  by (simp add: booking_defs respond_def)

lemma scenario_cancel_middle:
  "map (\<lambda>a. (appt_id a, status a, queuePosition a))
     (appointments (snd (cancelAppointment utc 383400000 12 2 pendingDb))) =
     [(1, Pending, 1), (2, Cancelled, 2), (3, Pending, 2)]"
  by (simp add: cancelAppointment_def findAppointmentById_def findOne_def eval_defs
      pendingDb_def)

end
